theory Spec2Isabelle
  imports Main "HOL-Library.Sublist" "HOL-Library.Char_ord" "HOL-Library.List_Lexorder"
begin

section \<open>JavaScript strings\<close>

text \<open>
  A JavaScript string is modelled as a \<^typ>\<open>string\<close> whose characters are the code units of
  the JavaScript string; the model covers the strings whose code units are below 256 (ASCII
  and Latin-1), so \<open>length\<close> is JavaScript's \<open>.length\<close>. \<open>null\<close> and \<open>undefined\<close> are
  \<open>None\<close> of an option type. Dates are milliseconds since the epoch.
\<close>

type_synonym objectId = nat
type_synonym date = int

text \<open>The white space that \<open>String.prototype.trim\<close> strips, among the code units below 256:
  TAB, LF, VT, FF, CR, SPACE and NBSP.\<close>

definition isWhiteSpace :: "char \<Rightarrow> bool" where
  "isWhiteSpace c =
     (c \<in> set [CHR 0x09, CHR 0x0A, CHR 0x0B, CHR 0x0C, CHR 0x0D, CHR 0x20, CHR 0xA0])"

definition trim :: "string \<Rightarrow> string" where
  "trim s = rev (dropWhile isWhiteSpace (rev (dropWhile isWhiteSpace s)))"

text \<open>Case folding of the ASCII letters: what the \<open>i\<close> flag of a regular expression and
  \<open>toLowerCase\<close> do to a string of ASCII characters.\<close>

definition toLowerAscii :: "char \<Rightarrow> char" where
  "toLowerAscii c =
     (case map_of (zip ''ABCDEFGHIJKLMNOPQRSTUVWXYZ'' ''abcdefghijklmnopqrstuvwxyz'') c of
        Some l \<Rightarrow> l
      | None \<Rightarrow> c)"

definition toLowerCase :: "string \<Rightarrow> string" where
  "toLowerCase s = map toLowerAscii s"

text \<open>\<open>s.includes(p)\<close>, and \<open>/p/.test(s)\<close> for a pattern \<open>p\<close> of literal characters.\<close>

definition str_includes :: "string \<Rightarrow> string \<Rightarrow> bool" where
  "str_includes s p = sublist p s"

text \<open>\<open>/p/i.test(s)\<close> for a pattern \<open>p\<close> of lower-case literal characters.\<close>

definition test_i :: "string \<Rightarrow> string \<Rightarrow> bool" where
  "test_i p s = str_includes (toLowerCase s) p"

text \<open>JavaScript truthiness of an optional string: \<open>null\<close>, \<open>undefined\<close> and \<open>''\<close> are falsy.\<close>

definition truthy :: "string option \<Rightarrow> bool" where
  "truthy v = (case v of None \<Rightarrow> False | Some s \<Rightarrow> s \<noteq> [])"

text \<open>\<open>v || d\<close> on an optional string.\<close>

definition orElse :: "string option \<Rightarrow> string \<Rightarrow> string" where
  "orElse v d = (case v of None \<Rightarrow> d | Some s \<Rightarrow> if s = [] then d else s)"

text \<open>\<open>s.split(sep)\<close> for a one-character separator.\<close>

fun split_on :: "char \<Rightarrow> string \<Rightarrow> string list" where
  "split_on sep [] = [[]]"
| "split_on sep (c # cs) =
     (if c = sep then [] # split_on sep cs
      else (case split_on sep cs of
              [] \<Rightarrow> [[c]]
            | p # ps \<Rightarrow> (c # p) # ps))"

definition isDigit :: "char \<Rightarrow> bool" where
  "isDigit c = (c \<in> set ''0123456789'')"

definition isHexDigit :: "char \<Rightarrow> bool" where
  "isHexDigit c = (c \<in> set ''0123456789abcdefABCDEF'')"

text \<open>The character class \<open>[a-zA-Z0-9_-]\<close>.\<close>

definition isCodeChar :: "char \<Rightarrow> bool" where
  "isCodeChar c =
     (c \<in> set ''abcdefghijklmnopqrstuvwxyzABCDEFGHIJKLMNOPQRSTUVWXYZ0123456789_-'')"


section \<open>The data model (models/Url, models/Click, the owner's counters)\<close>

record url =
  url_id :: objectId
  originalUrl :: string
  shortCode :: string
  customAlias :: "string option"
  user :: "objectId option"
  title :: "string option"
  description :: "string option"
  clicks :: int
  isActive :: bool
  expiresAt :: "date option"
  tags :: "string list"
  lastClickedAt :: "date option"
  createdAt :: date
  updatedAt :: date

text \<open>A stored click. The dimensions of the analytics are optional: a document of the
  collection may lack them, though the controllers store none that does.\<close>

record click =
  click_url :: objectId
  click_user :: "objectId option"
  ipAddress :: string
  userAgent :: string
  referer :: "string option"
  country :: "string option"
  city :: "string option"
  browser_name :: "string option"
  browser_version :: "string option"
  os_name :: "string option"
  os_version :: "string option"
  device_type :: "string option"
  device_brand :: "string option"
  device_model :: "string option"
  timestamp :: date

text \<open>The owner aggregate: the two counters of a user document the controllers update.\<close>

record account =
  account_id :: objectId
  urlsCount :: int
  totalClicks :: int

record db =
  db_urls :: "url list"
  db_clicks :: "click list"
  db_users :: "account list"

datatype db_op =
  ClickCreate | UrlSave | UserUpdate | ClickDeleteMany | UrlDelete | UrlCreate

text \<open>The errors of a request: a plain \<open>Error\<close> with its message, the validation error of a
  document, the duplicate key of a unique index, the cast error of a query (with the path
  whose value cannot be cast), and a write that the database fails.\<close>

datatype error =
  Error string
  | ValidationError string
  | DuplicateKey string
  | CastError string
  | WriteError db_op

fun message :: "error \<Rightarrow> string" where
  "message (Error m) = m"
| "message (ValidationError m) = m"
| "message (DuplicateKey m) = m"
| "message (CastError path) = ''Cast to date failed at path '' @ path"
| "message (WriteError _) = ''write failed''"


section \<open>The environment of a request\<close>

text \<open>
  What the code takes from outside the repository: the clock, the random sources
  (\<open>nanoid\<close>, \<open>Math.random\<close>), the platform's URL parser and date parser, the \<open>validator\<close>
  library, the database engine's date formatting and fresh identifiers, and whether a write
  to the database fails for a reason of the database's own. \<open>newDate e s\<close> is \<open>new Date(s)\<close>
  for a string \<open>s\<close>, and \<open>None\<close> when that is an Invalid Date. \<open>nanoid e k n\<close> is the result of the
  \<open>k\<close>-th call of one run of the generator, asked for \<open>n\<close> characters;
  \<open>math_random e k i\<close> is the index drawn for the \<open>i\<close>-th character of that candidate.
  One request reads the clock once.
\<close>

record geolocation =
  geo_country :: string
  geo_city :: string
  geo_region :: string
  geo_timezone :: string

record parsed_ua =
  ua_browser_name :: string
  ua_browser_version :: string
  ua_os_name :: string
  ua_os_version :: string
  ua_device_type :: string
  ua_device_brand :: string
  ua_device_model :: string

record env =
  now :: date
  nanoid :: "nat \<Rightarrow> nat \<Rightarrow> string"
  math_random :: "nat \<Rightarrow> nat \<Rightarrow> nat"
  urlProtocol :: "string \<Rightarrow> string option"
  urlHostname :: "string \<Rightarrow> string option"
  validator_isURL :: "string \<Rightarrow> bool"
  encodeURIComponent :: "string \<Rightarrow> string"
  dateToString :: "date \<Rightarrow> string"
  newDate :: "string \<Rightarrow> date option"
  newObjectId :: objectId
  write_fails :: "db_op \<Rightarrow> bool"


section \<open>utils/short.js\<close>

definition alphabet :: string where
  "alphabet = ''0123456789ABCDEFGHIJKLMNOPQRSTUVWXYZabcdefghijklmnopqrstuvwxyz''"

text \<open>\<open>s.replace(/[_-]/g, () => alphabet[Math.floor(Math.random() * alphabet.length)])\<close>;
  \<open>pick i\<close> is the draw for position \<open>i\<close>.\<close>

definition replaceDashes :: "(nat \<Rightarrow> nat) \<Rightarrow> string \<Rightarrow> string" where
  "replaceDashes pick s =
     map (\<lambda>(i, c). if c = CHR ''_'' \<or> c = CHR ''-''
                     then alphabet ! (pick i mod length alphabet) else c)
         (enumerate 0 s)"

definition candidate :: "env \<Rightarrow> nat \<Rightarrow> nat \<Rightarrow> string" where
  "candidate e k n = replaceDashes (math_random e k) (nanoid e k n)"

definition maxAttempts :: nat where
  "maxAttempts = 10"

text \<open>\<open>Url.findOne({ shortCode })\<close>.\<close>

definition findByShortCode :: "url list \<Rightarrow> string \<Rightarrow> url option" where
  "findByShortCode us code = find (\<lambda>u. shortCode u = code) us"

text \<open>\<open>Url.findOne({ $or: [{ shortCode: code }, { customAlias: code }] })\<close>.\<close>

definition findByCodeOrAlias :: "url list \<Rightarrow> string \<Rightarrow> url option" where
  "findByCodeOrAlias us code = find (\<lambda>u. shortCode u = code \<or> customAlias u = Some code) us"

text \<open>The \<open>while\<close> loop of \<open>generateShortCode\<close>: \<open>len\<close> and \<open>attempts\<close> are its two
  variables; a throw is \<open>Inl\<close>.\<close>

function generateShortCode_loop :: "env \<Rightarrow> url list \<Rightarrow> nat \<Rightarrow> nat \<Rightarrow> error + string" where
  "generateShortCode_loop e us len attempts =
     (if attempts < maxAttempts then
        (if findByShortCode us (candidate e attempts len) = None
         then Inr (candidate e attempts len)
         else generateShortCode_loop e us
                (if attempts + 1 < maxAttempts then len + 1 else len) (attempts + 1))
      else Inl (Error ''Unable to generate unique short code''))"
  by pat_completeness auto
termination
  by (relation "measure (\<lambda>(e, us, len, attempts). maxAttempts - attempts)") auto

declare generateShortCode_loop.simps [simp del]

definition generateShortCode :: "env \<Rightarrow> url list \<Rightarrow> nat \<Rightarrow> error + string" where
  "generateShortCode e us len = generateShortCode_loop e us len 0"

definition reservedWords :: "string list" where
  "reservedWords =
     [''api'', ''admin'', ''www'', ''mail'', ''ftp'', ''localhost'',
      ''dashboard'', ''analytics'', ''auth'', ''login'', ''register'',
      ''about'', ''contact'', ''help'', ''support'', ''terms'', ''privacy'',
      ''health'', ''status'', ''docs'', ''documentation'']"

text \<open>\<open>validateCustomAlias\<close>: \<open>Inr True\<close> is \<open>return true\<close>, \<open>Inl\<close> a throw.\<close>

definition validateCustomAlias :: "url list \<Rightarrow> string \<Rightarrow> error + bool" where
  "validateCustomAlias us alias =
     (if alias = [] then Inr True
      else if \<not> list_all isCodeChar alias then
        Inl (Error ''Custom alias can only contain letters, numbers, hyphens, and underscores'')
      else if length alias < 3 then
        Inl (Error ''Custom alias must be at least 3 characters long'')
      else if length alias > 50 then
        Inl (Error ''Custom alias cannot exceed 50 characters'')
      else if findByCodeOrAlias us alias \<noteq> None then
        Inl (Error ''This alias is already taken'')
      else if toLowerCase alias \<in> set reservedWords then
        Inl (Error ''This alias is reserved and cannot be used'')
      else Inr True)"

text \<open>The test \<open>/^https?:\/\//i\<close>.\<close>

definition hasHttpScheme :: "string \<Rightarrow> bool" where
  "hasHttpScheme s =
     (prefix ''http://'' (toLowerCase s) \<or> prefix ''https://'' (toLowerCase s))"

definition normalizeUrl :: "string \<Rightarrow> string" where
  "normalizeUrl url =
     (if url = [] then url
      else (let u = trim url in if \<not> hasHttpScheme u then ''https://'' @ u else u))"

text \<open>\<open>isValidUrl\<close>: \<open>new URL(url)\<close> throws when \<open>urlProtocol\<close> is \<open>None\<close>.\<close>

definition isValidUrl :: "env \<Rightarrow> string \<Rightarrow> bool" where
  "isValidUrl e u =
     (case urlProtocol e u of
        None \<Rightarrow> False
      | Some p \<Rightarrow> p \<in> set [''http:'', ''https:''])"

definition extractDomain :: "env \<Rightarrow> string \<Rightarrow> string" where
  "extractDomain e u = (case urlHostname e u of None \<Rightarrow> ''Unknown'' | Some h \<Rightarrow> h)"

definition generateQRCode :: "env \<Rightarrow> string \<Rightarrow> string" where
  "generateQRCode e u =
     ''https://api.qrserver.com/v1/create-qr-code/?size=200x200&data='' @ encodeURIComponent e u"


section \<open>utils/short1.js\<close>

text \<open>The \<open>do ... while (true)\<close> loop of the second \<open>generateShortCode\<close>: the counter is
  incremented and tested before the registry is asked, and the length never changes.\<close>

function generateShortCode1_loop :: "env \<Rightarrow> url list \<Rightarrow> nat \<Rightarrow> nat \<Rightarrow> error + string" where
  "generateShortCode1_loop e us len attempts =
     (if attempts + 1 \<ge> maxAttempts then Inl (Error ''Failed to generate unique short code'')
      else if findByCodeOrAlias us (nanoid e attempts len) = None
      then Inr (nanoid e attempts len)
      else generateShortCode1_loop e us len (attempts + 1))"
  by pat_completeness auto
termination
  by (relation "measure (\<lambda>(e, us, len, attempts). maxAttempts - attempts)") auto

declare generateShortCode1_loop.simps [simp del]

definition generateShortCode1 :: "env \<Rightarrow> url list \<Rightarrow> nat \<Rightarrow> error + string" where
  "generateShortCode1 e us len = generateShortCode1_loop e us len 0"

text \<open>The second \<open>normalizeUrl\<close> adds \<open>typeof url !== 'string'\<close> to the guard, which is
  false on every string.\<close>

definition normalizeUrl1 :: "string \<Rightarrow> string" where
  "normalizeUrl1 url =
     (if url = [] then url
      else (let normalizedUrl = trim url
            in if \<not> hasHttpScheme normalizedUrl then ''https://'' @ normalizedUrl
               else normalizedUrl))"



section \<open>utils/userAgent.js (src/unnamed/part_005)\<close>

text \<open>A regular expression of the form \<open>(?:p1|p2|...)([cls]+)\<close>: the leftmost position at
  which one of the literal prefixes is followed by at least one character of the class;
  the capture is the longest run of the class.\<close>

fun captureAt :: "string list \<Rightarrow> (char \<Rightarrow> bool) \<Rightarrow> string \<Rightarrow> string option" where
  "captureAt [] cls s = None"
| "captureAt (p # ps) cls s =
     (if prefix p s \<and> takeWhile cls (drop (length p) s) \<noteq> []
      then Some (takeWhile cls (drop (length p) s))
      else captureAt ps cls s)"

fun capture :: "string list \<Rightarrow> (char \<Rightarrow> bool) \<Rightarrow> string \<Rightarrow> string option" where
  "capture ps cls [] = None"
| "capture ps cls (c # cs) =
     (case captureAt ps cls (c # cs) of
        Some v \<Rightarrow> Some v
      | None \<Rightarrow> capture ps cls cs)"

definition extractVersion :: "string \<Rightarrow> string list \<Rightarrow> (char \<Rightarrow> bool) \<Rightarrow> string" where
  "extractVersion ua ps cls = (case capture ps cls ua of Some v \<Rightarrow> v | None \<Rightarrow> ''Unknown'')"

text \<open>The classes \<open>[0-9.]\<close> and \<open>[0-9_]\<close>.\<close>

definition isDigitOrDot :: "char \<Rightarrow> bool" where
  "isDigitOrDot c = (isDigit c \<or> c = CHR ''.'')"

definition isDigitOrUnderscore :: "char \<Rightarrow> bool" where
  "isDigitOrUnderscore c = (isDigit c \<or> c = CHR ''_'')"

definition underscoresToDots :: "string \<Rightarrow> string" where
  "underscoresToDots s = map (\<lambda>c. if c = CHR ''_'' then CHR ''.'' else c) s"

definition parseBrowser :: "string \<Rightarrow> string \<times> string" where
  "parseBrowser ua =
     (if str_includes ua ''chrome'' \<and> \<not> str_includes ua ''edg''
        then (''Chrome'', extractVersion ua [''chrome/''] isDigitOrDot)
      else if str_includes ua ''edg''
        then (''Edge'', extractVersion ua [''edg/''] isDigitOrDot)
      else if str_includes ua ''firefox''
        then (''Firefox'', extractVersion ua [''firefox/''] isDigitOrDot)
      else if str_includes ua ''safari'' \<and> \<not> str_includes ua ''chrome''
        then (''Safari'', extractVersion ua [''version/''] isDigitOrDot)
      else if str_includes ua ''opera'' \<or> str_includes ua ''opr''
        then (''Opera'', extractVersion ua [''opera/'', ''opr/''] isDigitOrDot)
      else if str_includes ua ''msie'' \<or> str_includes ua ''trident''
        then (''Internet Explorer'', extractVersion ua [''msie '', ''rv:''] isDigitOrDot)
      else (''Unknown'', ''Unknown''))"

definition parseOS :: "string \<Rightarrow> string \<times> string" where
  "parseOS ua =
     (if str_includes ua ''windows'' then
        (if str_includes ua ''windows nt 10.0'' then (''Windows'', ''10'')
         else if str_includes ua ''windows nt 6.3'' then (''Windows'', ''8.1'')
         else if str_includes ua ''windows nt 6.2'' then (''Windows'', ''8'')
         else if str_includes ua ''windows nt 6.1'' then (''Windows'', ''7'')
         else (''Windows'', ''Unknown''))
      else if str_includes ua ''mac os x'' then
        (''macOS'', underscoresToDots (extractVersion ua [''mac os x ''] isDigitOrUnderscore))
      else if str_includes ua ''linux'' then
        (if str_includes ua ''ubuntu'' then (''Ubuntu'', ''Unknown'')
         else if str_includes ua ''debian'' then (''Debian'', ''Unknown'')
         else if str_includes ua ''fedora'' then (''Fedora'', ''Unknown'')
         else (''Linux'', ''Unknown''))
      else if str_includes ua ''android'' then
        (''Android'', extractVersion ua [''android ''] isDigitOrDot)
      else if str_includes ua ''iphone'' \<or> str_includes ua ''ipad'' \<or> str_includes ua ''ipod'' then
        (''iOS'', underscoresToDots (extractVersion ua [''os ''] isDigitOrUnderscore))
      else (''Unknown'', ''Unknown''))"

definition parseDevice :: "string \<Rightarrow> string \<times> string \<times> string" where
  "parseDevice ua =
     (if str_includes ua ''mobile'' \<or> str_includes ua ''android'' \<or> str_includes ua ''iphone'' then
        (if str_includes ua ''iphone'' then (''mobile'', ''Apple'', ''iPhone'')
         else if str_includes ua ''android'' then
           (if list_ex (str_includes ua) [''samsung'', ''galaxy'', ''gt-'', ''sm-'']
              then (''mobile'', ''Samsung'', ''Android'')
            else if list_ex (str_includes ua) [''huawei'', ''honor'']
              then (''mobile'', ''Huawei'', ''Android'')
            else if list_ex (str_includes ua) [''xiaomi'', ''mi '', ''redmi'']
              then (''mobile'', ''Xiaomi'', ''Android'')
            else (''mobile'', ''Unknown'', ''Android''))
         else (''mobile'', ''Unknown'', ''Unknown''))
      else if str_includes ua ''tablet'' \<or> str_includes ua ''ipad'' then
        (if str_includes ua ''ipad'' then (''tablet'', ''Apple'', ''iPad'')
         else (''tablet'', ''Unknown'', ''Unknown''))
      else (''desktop'', ''Unknown'', ''Unknown''))"

text \<open>\<open>toLowerCase\<close> of a string of code units below 256 differs from the ASCII folding only
  on letters outside ASCII, which no pattern and no capture of the parser contains.\<close>

definition parseUserAgent :: "string \<Rightarrow> parsed_ua" where
  "parseUserAgent uaStr =
     (if uaStr = [] then
        \<lparr>ua_browser_name = ''Unknown'', ua_browser_version = ''Unknown'',
         ua_os_name = ''Unknown'', ua_os_version = ''Unknown'',
         ua_device_type = ''unknown'', ua_device_brand = ''Unknown'',
         ua_device_model = ''Unknown''\<rparr>
      else
        (let ua = toLowerCase uaStr;
             b = parseBrowser ua; os = parseOS ua; dv = parseDevice ua
         in \<lparr>ua_browser_name = fst b, ua_browser_version = snd b,
             ua_os_name = fst os, ua_os_version = snd os,
             ua_device_type = fst dv, ua_device_brand = fst (snd dv),
             ua_device_model = snd (snd dv)\<rparr>))"

definition botPatterns :: "string list" where
  "botPatterns =
     [''googlebot'', ''bingbot'', ''slurp'', ''duckduckbot'', ''baiduspider'', ''yandexbot'',
      ''facebookexternalhit'', ''twitterbot'', ''linkedinbot'', ''whatsapp'', ''telegram'',
      ''crawler'', ''spider'', ''bot'', ''headless'', ''phantom'', ''scraper'']"

text \<open>\<open>isBot\<close>; the argument is optional so that \<open>null\<close> and \<open>undefined\<close> are inputs.\<close>

definition isBot :: "string option \<Rightarrow> bool" where
  "isBot ua =
     (if \<not> truthy ua then False
      else list_ex (\<lambda>p. test_i p (orElse ua [])) botPatterns)"

text \<open>\<open>isBot\<close> of \<open>utils/agent.js\<close>, with its own list of patterns.\<close>

definition agent_bots :: "string list" where
  "agent_bots =
     [''googlebot'', ''bingbot'', ''slurp'', ''duckduckbot'', ''baiduspider'', ''yandexbot'',
      ''facebookexternalhit'', ''twitterbot'', ''linkedinbot'', ''whatsapp'', ''telegram'',
      ''crawler'', ''spider'', ''bot'', ''headless'', ''phantom'', ''scraper'']"

definition agent_isBot :: "string option \<Rightarrow> bool" where
  "agent_isBot ua =
     (if \<not> truthy ua then False
      else list_ex (\<lambda>b. test_i b (orElse ua [])) agent_bots)"


section \<open>utils/ip.js (src/unnamed/part_005)\<close>

record request_body =
  body_originalUrl :: "string option"
  body_customAlias :: "string option"
  body_title :: "string option"
  body_description :: "string option"
  body_tags :: "string list option"
  body_expiresAt :: "date option"

text \<open>The parameters of a query string that the analytics read, each given at most once
  and so a string.\<close>

record request_query =
  query_startDate :: "string option"
  query_endDate :: "string option"
  query_period :: "string option"

text \<open>An Express request: \<open>req_user\<close> is \<open>req.user.id\<close> when the request is authenticated;
  a header that is absent is \<open>None\<close>. The date of the body is given parsed.\<close>

record request =
  req_user :: "objectId option"
  params_shortCode :: string
  params_id :: objectId
  headers :: "string \<Rightarrow> string option"
  connection_remoteAddress :: "string option"
  socket_remoteAddress :: "string option"
  connection_socket_remoteAddress :: "string option"
  req_ip :: "string option"
  protocol :: string
  host :: string
  body :: request_body
  query :: request_query

definition getClientIP :: "request \<Rightarrow> string" where
  "getClientIP req =
     (if truthy (headers req ''x-forwarded-for'')
        then trim (hd (split_on (CHR '','') (orElse (headers req ''x-forwarded-for'') [])))
      else if truthy (headers req ''x-real-ip'') then orElse (headers req ''x-real-ip'') []
      else if truthy (headers req ''cf-connecting-ip'')
        then orElse (headers req ''cf-connecting-ip'') []
      else if truthy (connection_remoteAddress req)
        then orElse (connection_remoteAddress req) []
      else if truthy (socket_remoteAddress req) then orElse (socket_remoteAddress req) []
      else if truthy (connection_socket_remoteAddress req)
        then orElse (connection_socket_remoteAddress req) []
      else orElse (req_ip req) ''127.0.0.1'')"

definition getGeolocation :: "string \<Rightarrow> geolocation" where
  "getGeolocation ip =
     (if ip = ''127.0.0.1'' \<or> ip = ''::1'' \<or> prefix ''192.168.'' ip \<or> prefix ''10.'' ip
      then \<lparr>geo_country = ''Local'', geo_city = ''Local'', geo_region = ''Local'',
            geo_timezone = ''Local''\<rparr>
      else \<lparr>geo_country = ''Unknown'', geo_city = ''Unknown'', geo_region = ''Unknown'',
            geo_timezone = ''Unknown''\<rparr>)"



section \<open>models/Click and models/Url (src/unnamed/part_004)\<close>

text \<open>The two regular expressions of the \<open>ipAddress\<close> validator. An octet of the first is
  \<open>25[0-5]|2[0-4][0-9]|[01]?[0-9][0-9]?\<close>; a group of the second is one to four
  hexadecimal digits.\<close>

fun ipv4Octet :: "string \<Rightarrow> bool" where
  "ipv4Octet [a] = isDigit a"
| "ipv4Octet [a, b] = (isDigit a \<and> isDigit b)"
| "ipv4Octet [a, b, c] =
     ((a = CHR ''2'' \<and> b = CHR ''5'' \<and> c \<in> set ''012345'')
      \<or> (a = CHR ''2'' \<and> b \<in> set ''01234'' \<and> isDigit c)
      \<or> (a \<in> set ''01'' \<and> isDigit b \<and> isDigit c))"
| "ipv4Octet _ = False"

definition ipv4Regex :: "string \<Rightarrow> bool" where
  "ipv4Regex ip =
     (length (split_on (CHR ''.'') ip) = 4 \<and> list_all ipv4Octet (split_on (CHR ''.'') ip))"

definition ipv6Group :: "string \<Rightarrow> bool" where
  "ipv6Group g = (1 \<le> length g \<and> length g \<le> 4 \<and> list_all isHexDigit g)"

definition ipv6Regex :: "string \<Rightarrow> bool" where
  "ipv6Regex ip =
     (length (split_on (CHR '':'') ip) = 8 \<and> list_all ipv6Group (split_on (CHR '':'') ip))"

text \<open>A \<open>maxlength\<close> validator runs on a value that is present.\<close>

definition maxlength :: "nat \<Rightarrow> string option \<Rightarrow> bool" where
  "maxlength n v = (case v of None \<Rightarrow> True | Some s \<Rightarrow> length s \<le> n)"

text \<open>The validators of the click schema. A \<open>required\<close> string must be present and not
  empty.\<close>

definition validClick :: "click \<Rightarrow> bool" where
  "validClick c =
     (ipAddress c \<noteq> []
      \<and> (ipv4Regex (ipAddress c) \<or> ipv6Regex (ipAddress c) \<or> ipAddress c = ''::1''
           \<or> ipAddress c = ''127.0.0.1'')
      \<and> userAgent c \<noteq> [] \<and> length (userAgent c) \<le> 500
      \<and> maxlength 500 (referer c)
      \<and> maxlength 100 (country c) \<and> maxlength 100 (city c)
      \<and> maxlength 50 (browser_name c) \<and> maxlength 20 (browser_version c)
      \<and> maxlength 50 (os_name c) \<and> maxlength 20 (os_version c)
      \<and> (case device_type c of
            None \<Rightarrow> True
          | Some t \<Rightarrow> t \<in> set [''desktop'', ''mobile'', ''tablet'', ''unknown''])
      \<and> maxlength 50 (device_brand c) \<and> maxlength 50 (device_model c))"

text \<open>\<open>Click.create(clickData)\<close>: the document is validated, then inserted. The click data of
  the controllers give a value to every path for which the schema has a default, so that
  no default is taken.\<close>

definition Click_create :: "env \<Rightarrow> db \<Rightarrow> click \<Rightarrow> error + db" where
  "Click_create e d c =
     (if \<not> validClick c then Inl (ValidationError ''Click validation failed'')
      else if write_fails e ClickCreate then Inl (WriteError ClickCreate)
      else Inr (d\<lparr>db_clicks := db_clicks d @ [c]\<rparr>))"

text \<open>An update and a removal of the first document that matches, as \<open>updateOne\<close>,
  \<open>findByIdAndUpdate\<close> and \<open>findByIdAndDelete\<close> do.\<close>

fun updateFirst :: "('a \<Rightarrow> bool) \<Rightarrow> ('a \<Rightarrow> 'a) \<Rightarrow> 'a list \<Rightarrow> 'a list" where
  "updateFirst P f [] = []"
| "updateFirst P f (x # xs) = (if P x then f x # xs else x # updateFirst P f xs)"

fun removeFirst :: "('a \<Rightarrow> bool) \<Rightarrow> 'a list \<Rightarrow> 'a list" where
  "removeFirst P [] = []"
| "removeFirst P (x # xs) = (if P x then xs else x # removeFirst P xs)"

definition isExpired :: "env \<Rightarrow> url \<Rightarrow> bool" where
  "isExpired e u = (case expiresAt u of None \<Rightarrow> False | Some t \<Rightarrow> now e > t)"

text \<open>\<open>incrementClicks\<close>: the document in memory is changed and saved; \<open>save\<close> validates the
  changed paths (\<open>clicks\<close> has \<open>min: 0\<close>) and writes them to the stored document.\<close>

definition incrementClicks :: "env \<Rightarrow> db \<Rightarrow> url \<Rightarrow> error + db" where
  "incrementClicks e d u =
     (if clicks u + 1 < 0 then Inl (ValidationError ''Clicks cannot be negative'')
      else if write_fails e UrlSave then Inl (WriteError UrlSave)
      else Inr (d\<lparr>db_urls :=
             updateFirst (\<lambda>v. url_id v = url_id u)
               (\<lambda>v. v\<lparr>clicks := clicks u + 1, lastClickedAt := Some (now e),
                       updatedAt := now e\<rparr>)
               (db_urls d)\<rparr>))"

text \<open>\<open>User.findByIdAndUpdate(id, { $inc: { urlsCount: m, totalClicks: n } })\<close>.\<close>

definition incUser :: "env \<Rightarrow> db \<Rightarrow> objectId \<Rightarrow> int \<Rightarrow> int \<Rightarrow> error + db" where
  "incUser e d uid m n =
     (if write_fails e UserUpdate then Inl (WriteError UserUpdate)
      else Inr (d\<lparr>db_users :=
             updateFirst (\<lambda>a. account_id a = uid)
               (\<lambda>a. a\<lparr>urlsCount := urlsCount a + m, totalClicks := totalClicks a + n\<rparr>)
               (db_users d)\<rparr>))"

text \<open>\<open>Click.deleteMany({ url: id })\<close> and \<open>Url.findByIdAndDelete(id)\<close>.\<close>

definition Click_deleteMany :: "env \<Rightarrow> db \<Rightarrow> objectId \<Rightarrow> error + db" where
  "Click_deleteMany e d i =
     (if write_fails e ClickDeleteMany then Inl (WriteError ClickDeleteMany)
      else Inr (d\<lparr>db_clicks := filter (\<lambda>c. click_url c \<noteq> i) (db_clicks d)\<rparr>))"

definition Url_findByIdAndDelete :: "env \<Rightarrow> db \<Rightarrow> objectId \<Rightarrow> error + db" where
  "Url_findByIdAndDelete e d i =
     (if write_fails e UrlDelete then Inl (WriteError UrlDelete)
      else Inr (d\<lparr>db_urls := removeFirst (\<lambda>u. url_id u = i) (db_urls d)\<rparr>))"

text \<open>The validators of the url schema, on a document whose strings the schema's \<open>trim\<close>
  setters have trimmed; \<open>match\<close> accepts a value that is absent or empty.\<close>

definition matchCode :: "string \<Rightarrow> bool" where
  "matchCode s = (s = [] \<or> list_all isCodeChar s)"

definition validUrl :: "env \<Rightarrow> url \<Rightarrow> bool" where
  "validUrl e u =
     (originalUrl u \<noteq> [] \<and> validator_isURL e (originalUrl u)
      \<and> shortCode u \<noteq> [] \<and> 3 \<le> length (shortCode u) \<and> length (shortCode u) \<le> 20
      \<and> matchCode (shortCode u)
      \<and> (case customAlias u of
            None \<Rightarrow> True
          | Some a \<Rightarrow> 3 \<le> length a \<and> length a \<le> 50 \<and> matchCode a)
      \<and> maxlength 200 (title u) \<and> maxlength 500 (description u)
      \<and> list_all (\<lambda>t. length t \<le> 20) (tags u)
      \<and> 0 \<le> clicks u)"

definition trimSetters :: "url \<Rightarrow> url" where
  "trimSetters u =
     u\<lparr>originalUrl := trim (originalUrl u), shortCode := trim (shortCode u),
       customAlias := map_option trim (customAlias u), title := map_option trim (title u),
       description := map_option trim (description u), tags := map trim (tags u)\<rparr>"

text \<open>\<open>Url.create(urlData)\<close>: setters, validation, then the insert, which the unique index on
  \<open>shortCode\<close> refuses for a code that is stored already.\<close>

definition Url_create :: "env \<Rightarrow> db \<Rightarrow> url \<Rightarrow> error + url \<times> db" where
  "Url_create e d urlData =
     (let u = trimSetters urlData in
      if \<not> validUrl e u then Inl (ValidationError ''Url validation failed'')
      else if findByShortCode (db_urls d) (shortCode u) \<noteq> None
        then Inl (DuplicateKey ''E11000 duplicate key error'')
      else if write_fails e UrlCreate then Inl (WriteError UrlCreate)
      else Inr (u, d\<lparr>db_urls := db_urls d @ [u]\<rparr>))"


section \<open>Responses and the trace of a request\<close>

record url_summary =
  s_id :: objectId
  s_shortCode :: string
  s_originalUrl :: string
  s_title :: "string option"
  s_totalClicks :: int
  s_createdAt :: date

record charts =
  clicksByDate :: "(string \<times> nat) list"
  clicksByCountry :: "(string option \<times> nat) list"
  clicksByBrowser :: "(string option \<times> nat) list"
  clicksByOS :: "(string option \<times> nat) list"
  clicksByDevice :: "(string option \<times> nat) list"

text \<open>A recent click of the report: the first controller renders the time, a location, the
  browser, the OS and the device; the second returns the paths that its query selects:
  the time, the country, the city, the browser, the OS and the device.\<close>

datatype recent =
  RecentRendered date string string string string
  | RecentDoc date string string string string string

record analytics =
  an_url :: url_summary
  period_start :: date
  period_end :: date
  period_name :: "string option"
  summary_totalClicks :: nat
  summary_uniqueVisitors :: nat
  an_charts :: charts
  recentClicks :: "recent list"

datatype payload =
  NoData
  | UrlData url
  | UrlWithQr url string
  | AnalyticsData analytics

text \<open>\<open>res.status(n).json({ success, message, data })\<close> and \<open>res.redirect(n, target)\<close>. A link
  in a payload stands for its JSON form, to which \<open>toJSON\<close> adds the \<open>shortUrl\<close> derived from
  its short code.\<close>

datatype response =
  Json nat bool string payload
  | Redirect nat string

text \<open>What a request does, in the order in which it does it: the response it sends, the
  writes that reach the database, what it logs with \<open>console.error\<close>, and the error with
  which the handler's promise is rejected (which \<open>asyncHandler\<close> passes on to the error
  middleware).\<close>

datatype event =
  Responded response
  | Persisted db_op
  | Logged string error
  | Thrown error

type_synonym outcome = "event list \<times> db"

definition persisted :: "db_op \<Rightarrow> error + db \<Rightarrow> event list" where
  "persisted op r = (case r of Inl _ \<Rightarrow> [] | Inr _ \<Rightarrow> [Persisted op])"

definition db_after :: "db \<Rightarrow> error + db \<Rightarrow> db" where
  "db_after d r = (case r of Inl _ \<Rightarrow> d | Inr d' \<Rightarrow> d')"

definition failures :: "(error + db) list \<Rightarrow> error list" where
  "failures rs = concat (map (\<lambda>r. case r of Inl err \<Rightarrow> [err] | Inr _ \<Rightarrow> []) rs)"



section \<open>controllers/url.controller.js\<close>

text \<open>\<open>Url.findOne({ $or: [{ shortCode }, { customAlias: shortCode }], isActive: true })\<close>.\<close>

definition findActive :: "url list \<Rightarrow> string \<Rightarrow> url option" where
  "findActive us code =
     find (\<lambda>u. (shortCode u = code \<or> customAlias u = Some code) \<and> isActive u) us"

text \<open>\<open>Url.findOne({ _id: id, user: userId })\<close>.\<close>

definition findUrlForUser :: "url list \<Rightarrow> objectId \<Rightarrow> objectId \<Rightarrow> url option" where
  "findUrlForUser us i uid = find (\<lambda>u. url_id u = i \<and> user u = Some uid) us"

text \<open>\<open>req.headers.referer || req.headers.referrer || null\<close>.\<close>

definition refererOf :: "request \<Rightarrow> string option" where
  "refererOf req =
     (if truthy (headers req ''referer'') then headers req ''referer''
      else if truthy (headers req ''referrer'') then headers req ''referrer''
      else None)"

definition clickData :: "env \<Rightarrow> url \<Rightarrow> request \<Rightarrow> click" where
  "clickData e u req =
     (let clientIP = getClientIP req;
          ua = orElse (headers req ''user-agent'') [];
          parsedUA = parseUserAgent ua;
          geo = getGeolocation clientIP
      in \<lparr>click_url = url_id u, click_user = req_user req, ipAddress = clientIP,
          userAgent = ua, referer = refererOf req,
          country = Some (geo_country geo), city = Some (geo_city geo),
          browser_name = Some (ua_browser_name parsedUA),
          browser_version = Some (ua_browser_version parsedUA),
          os_name = Some (ua_os_name parsedUA), os_version = Some (ua_os_version parsedUA),
          device_type = Some (ua_device_type parsedUA),
          device_brand = Some (ua_device_brand parsedUA),
          device_model = Some (ua_device_model parsedUA),
          timestamp = now e\<rparr>)"

text \<open>\<open>redirectUrl\<close>: every write is awaited before the redirect is sent, and an error of a
  write rejects the handler's promise.\<close>

definition redirectUrl :: "env \<Rightarrow> db \<Rightarrow> request \<Rightarrow> outcome" where
  "redirectUrl e d req =
     (case findActive (db_urls d) (params_shortCode req) of
        None \<Rightarrow> ([Responded (Json 404 False ''Short URL not found'' NoData)], d)
      | Some u \<Rightarrow>
          if isExpired e u
          then ([Responded (Json 410 False ''Short URL has expired'' NoData)], d)
          else if \<not> isBot (Some (orElse (headers req ''user-agent'') [])) then
            (case Click_create e d (clickData e u req) of
               Inl err \<Rightarrow> ([Thrown err], d)
             | Inr d1 \<Rightarrow>
                 (case incrementClicks e d1 u of
                    Inl err \<Rightarrow> ([Persisted ClickCreate, Thrown err], d1)
                  | Inr d2 \<Rightarrow>
                      (case user u of
                         None \<Rightarrow>
                           ([Persisted ClickCreate, Persisted UrlSave,
                             Responded (Redirect 301 (originalUrl u))], d2)
                       | Some uid \<Rightarrow>
                           (case incUser e d2 uid 0 1 of
                              Inl err \<Rightarrow>
                                ([Persisted ClickCreate, Persisted UrlSave, Thrown err], d2)
                            | Inr d3 \<Rightarrow>
                                ([Persisted ClickCreate, Persisted UrlSave,
                                  Persisted UserUpdate,
                                  Responded (Redirect 301 (originalUrl u))], d3)))))
          else ([Responded (Redirect 301 (originalUrl u))], d))"

text \<open>\<open>deleteUrl\<close>: three writes, each awaited before the next is started.\<close>

definition deleteUrl :: "env \<Rightarrow> db \<Rightarrow> request \<Rightarrow> outcome" where
  "deleteUrl e d req =
     (case req_user req of
        None \<Rightarrow> ([Thrown (Error ''TypeError'')], d)
      | Some uid \<Rightarrow>
          (case findUrlForUser (db_urls d) (params_id req) uid of
             None \<Rightarrow> ([Responded (Json 404 False ''URL not found'' NoData)], d)
           | Some u \<Rightarrow>
               (case Click_deleteMany e d (url_id u) of
                  Inl err \<Rightarrow> ([Thrown err], d)
                | Inr d1 \<Rightarrow>
                    (case Url_findByIdAndDelete e d1 (url_id u) of
                       Inl err \<Rightarrow> ([Persisted ClickDeleteMany, Thrown err], d1)
                     | Inr d2 \<Rightarrow>
                         (case incUser e d2 uid (- 1) (- clicks u) of
                            Inl err \<Rightarrow>
                              ([Persisted ClickDeleteMany, Persisted UrlDelete, Thrown err],
                               d2)
                          | Inr d3 \<Rightarrow>
                              ([Persisted ClickDeleteMany, Persisted UrlDelete,
                                Persisted UserUpdate,
                                Responded (Json 200 True ''URL deleted successfully'' NoData)],
                               d3))))))"

text \<open>\<open>tags && Array.isArray(tags) ? tags.map(tag => tag.trim()).filter(Boolean) : []\<close>.\<close>

definition cleanTags :: "string list option \<Rightarrow> string list" where
  "cleanTags ts =
     (case ts of None \<Rightarrow> [] | Some l \<Rightarrow> filter (\<lambda>t. t \<noteq> []) (map trim l))"

text \<open>\<open>createShortUrl\<close> from the comment \<open>Validate expiration date\<close> to its end, for the
  normalised destination and the code chosen before.\<close>

definition createShortUrl_store :: "env \<Rightarrow> db \<Rightarrow> request \<Rightarrow> string \<Rightarrow> string \<Rightarrow> outcome" where
  "createShortUrl_store e d req normalizedUrl code =
     (let b = body req in
      if (case body_expiresAt b of None \<Rightarrow> False | Some t \<Rightarrow> t \<le> now e)
      then ([Responded (Json 400 False ''Expiration date must be in the future'' NoData)], d)
      else
        (case Url_create e d
           \<lparr>url_id = newObjectId e, originalUrl = normalizedUrl, shortCode = code,
            customAlias =
              (if truthy (body_customAlias b)
               then Some (trim (orElse (body_customAlias b) [])) else None),
            user = req_user req,
            title =
              Some (if truthy (body_title b) then trim (orElse (body_title b) [])
                    else extractDomain e normalizedUrl),
            description =
              (if truthy (body_description b)
               then Some (trim (orElse (body_description b) [])) else None),
            clicks = 0, isActive = True, expiresAt = body_expiresAt b,
            tags = cleanTags (body_tags b), lastClickedAt = None,
            createdAt = now e, updatedAt = now e\<rparr> of
           Inl err \<Rightarrow> ([Thrown err], d)
         | Inr (newUrl, d1) \<Rightarrow>
             (case (case req_user req of
                      None \<Rightarrow> Inr d1
                    | Some uid \<Rightarrow> incUser e d1 uid 1 0) of
                Inl err \<Rightarrow> ([Persisted UrlCreate, Thrown err], d1)
              | Inr d2 \<Rightarrow>
                  (Persisted UrlCreate #
                   (case req_user req of None \<Rightarrow> [] | Some _ \<Rightarrow> [Persisted UserUpdate]) @
                   [Responded (Json 201 True ''Short URL created successfully''
                      (UrlWithQr newUrl
                         (generateQRCode e (protocol req @ ''://'' @ host req @ ''/'' @ code))))],
                   d2))))"

definition createShortUrl :: "env \<Rightarrow> db \<Rightarrow> request \<Rightarrow> outcome" where
  "createShortUrl e d req =
     (let b = body req in
      if \<not> truthy (body_originalUrl b)
      then ([Responded (Json 400 False ''Original URL is required'' NoData)], d)
      else
        (let normalizedUrl = normalizeUrl (trim (orElse (body_originalUrl b) [])) in
         if \<not> isValidUrl e normalizedUrl
         then ([Responded (Json 400 False
                  ''Please provide a valid URL with http:// or https://'' NoData)], d)
         else
           (case (if truthy (body_customAlias b)
                  then validateCustomAlias (db_urls d) (trim (orElse (body_customAlias b) []))
                  else Inr True) of
              Inl err \<Rightarrow> ([Responded (Json 400 False (message err) NoData)], d)
            | Inr _ \<Rightarrow>
                (case (case req_user req of
                         None \<Rightarrow> None
                       | Some uid \<Rightarrow>
                           find (\<lambda>u. originalUrl u = normalizedUrl \<and> user u = Some uid)
                             (db_urls d)) of
                   Some existingUrl \<Rightarrow>
                     ([Responded (Json 200 True ''URL already shortened'' (UrlData existingUrl))],
                      d)
                 | None \<Rightarrow>
                     (case (if truthy (body_customAlias b)
                            then Inr (trim (orElse (body_customAlias b) []))
                            else generateShortCode e (db_urls d) 6) of
                        Inl err \<Rightarrow> ([Thrown err], d)
                      | Inr code \<Rightarrow> createShortUrl_store e d req normalizedUrl code)))))"



subsection \<open>The analytics report\<close>

text \<open>The stages of an aggregation pipeline. The order in which \<open>$group\<close> returns its groups
  and in which \<open>$sort\<close> leaves equal keys is not specified by the database; the model
  keeps the groups in the order of \<open>remdups\<close> and sorts stably.\<close>

definition matchStage :: "objectId \<Rightarrow> date \<Rightarrow> date \<Rightarrow> click list \<Rightarrow> click list" where
  "matchStage i start end' cs =
     filter (\<lambda>c. click_url c = i \<and> start \<le> timestamp c \<and> timestamp c \<le> end') cs"

definition groupCount :: "('a \<Rightarrow> 'k) \<Rightarrow> 'a list \<Rightarrow> ('k \<times> nat) list" where
  "groupCount key xs =
     map (\<lambda>k. (k, length (filter (\<lambda>x. key x = k) xs))) (remdups (map key xs))"

definition sortByClicksDesc :: "('k \<times> nat) list \<Rightarrow> ('k \<times> nat) list" where
  "sortByClicksDesc gs = sort_key (\<lambda>g. - int (snd g)) gs"

definition sortByIdAsc :: "(string \<times> nat) list \<Rightarrow> (string \<times> nat) list" where
  "sortByIdAsc gs = sort_key fst gs"

definition topTen :: "(click \<Rightarrow> string option) \<Rightarrow> click list \<Rightarrow> (string option \<times> nat) list" where
  "topTen key cs = take 10 (sortByClicksDesc (groupCount key cs))"

text \<open>The \<open>$group\<close> with \<open>_id: null\<close> of the summary returns no document for no click, and
  the controller then takes its default.\<close>

definition summaryOf :: "click list \<Rightarrow> nat \<times> nat" where
  "summaryOf cs =
     (if cs = [] then (0, 0) else (length cs, length (remdups (map ipAddress cs))))"

definition recentFifty :: "click list \<Rightarrow> click list" where
  "recentFifty cs = take 50 (sort_key (\<lambda>c. - timestamp c) cs)"

definition daysToSubtract :: "string \<Rightarrow> int" where
  "daysToSubtract p =
     (if p = ''24h'' then 1 else if p = ''7d'' then 7 else if p = ''30d'' then 30
      else if p = ''90d'' then 90 else 7)"

text \<open>The window of a report: the two dates of the query when both are given and not
  empty, else the named period that ends now. A date is \<open>None\<close> when it is an Invalid
  Date.\<close>

definition dateRange :: "env \<Rightarrow> request_query \<Rightarrow> date option \<times> date option" where
  "dateRange e q =
     (if truthy (query_startDate q) \<and> truthy (query_endDate q)
      then (newDate e (orElse (query_startDate q) []), newDate e (orElse (query_endDate q) []))
      else
        (Some (now e
           - daysToSubtract (case query_period q of None \<Rightarrow> ''7d'' | Some p \<Rightarrow> p)
             * 24 * 60 * 60 * 1000),
         Some (now e)))"

definition summaryOfUrl :: "url \<Rightarrow> url_summary" where
  "summaryOfUrl u =
     \<lparr>s_id = url_id u, s_shortCode = shortCode u, s_originalUrl = originalUrl u,
      s_title = title u, s_totalClicks = clicks u, s_createdAt = createdAt u\<rparr>"

text \<open>A document that \<open>find\<close> returns is hydrated: a selected path that the stored document
  lacks has the default of the schema.\<close>

definition hydrated :: "string \<Rightarrow> string option \<Rightarrow> string" where
  "hydrated dflt v = (case v of None \<Rightarrow> dflt | Some s \<Rightarrow> s)"

definition renderRecent :: "click \<Rightarrow> recent" where
  "renderRecent c =
     RecentRendered (timestamp c)
       (hydrated ''Unknown'' (city c) @ '', '' @ hydrated ''Unknown'' (country c))
       (hydrated ''Unknown'' (browser_name c)) (hydrated ''Unknown'' (os_name c))
       (hydrated ''unknown'' (device_type c))"

text \<open>\<open>getUrlAnalytics\<close>: seven queries over the same window, of which \<open>find\<close> casts the two
  dates of its filter and is rejected for an Invalid Date; the charts carry the group
  keys as the database returns them.\<close>

definition getUrlAnalytics :: "env \<Rightarrow> db \<Rightarrow> request \<Rightarrow> outcome" where
  "getUrlAnalytics e d req =
     (case req_user req of
        None \<Rightarrow> ([Thrown (Error ''TypeError'')], d)
      | Some uid \<Rightarrow>
          (case findUrlForUser (db_urls d) (params_id req) uid of
             None \<Rightarrow> ([Responded (Json 404 False ''URL not found'' NoData)], d)
           | Some u \<Rightarrow>
               (case dateRange e (query req) of
                  (Some start, Some end') \<Rightarrow>
                    (let m = matchStage (url_id u) start end' (db_clicks d)
                     in ([Responded (Json 200 True []
                           (AnalyticsData
                              \<lparr>an_url = summaryOfUrl u,
                               period_start = start, period_end = end',
                               period_name =
                                 Some (case query_period (query req) of
                                         None \<Rightarrow> ''7d'' | Some p \<Rightarrow> p),
                               summary_totalClicks = fst (summaryOf m),
                               summary_uniqueVisitors = snd (summaryOf m),
                               an_charts =
                                 \<lparr>clicksByDate =
                                    take 100
                                      (sortByIdAsc
                                         (groupCount (\<lambda>c. dateToString e (timestamp c)) m)),
                                  clicksByCountry = topTen country m,
                                  clicksByBrowser = topTen browser_name m,
                                  clicksByOS = topTen os_name m,
                                  clicksByDevice =
                                    sortByClicksDesc (groupCount device_type m)\<rparr>,
                               recentClicks = map renderRecent (recentFifty m)\<rparr>))],
                         d))
                | _ \<Rightarrow> ([Thrown (CastError ''timestamp'')], d))))"


section \<open>The refactored controller (src/unnamed/part_000)\<close>

text \<open>The click data of \<open>trackClick\<close> names no user; the schema's default gives the time.\<close>

definition clickData2 :: "env \<Rightarrow> url \<Rightarrow> request \<Rightarrow> click" where
  "clickData2 e u req = (clickData e u req)\<lparr>click_user := None\<rparr>"

text \<open>\<open>trackClick\<close>: the three writes of \<open>Promise.all\<close> are started together, each on its own
  collection, and each succeeds or fails by itself; the promise is rejected with a failure
  when there is one (the model takes the first in the order of the array).\<close>

definition trackClick :: "env \<Rightarrow> db \<Rightarrow> url \<Rightarrow> request \<Rightarrow> (event list \<times> error option) \<times> db" where
  "trackClick e d u req =
     (if isBot (Some (orElse (headers req ''user-agent'') [])) then (([], None), d)
      else
        (let r1 = Click_create e d (clickData2 e u req);
             d1 = db_after d r1;
             r2 = incrementClicks e d1 u;
             d2 = db_after d1 r2;
             r3 = (case user u of None \<Rightarrow> Inr d2 | Some uid \<Rightarrow> incUser e d2 uid 0 1);
             d3 = db_after d2 r3
         in ((persisted ClickCreate r1 @ persisted UrlSave r2 @
              (case user u of None \<Rightarrow> [] | Some _ \<Rightarrow> persisted UserUpdate r3),
              (case failures [r1, r2, r3] of [] \<Rightarrow> None | err # _ \<Rightarrow> Some err)),
             d3)))"

text \<open>\<open>redirectUrl\<close>: \<open>trackClick\<close> is called and not awaited; it runs up to its first
  \<open>await\<close>, which comes before its first write, the redirect is sent, and the writes follow.
  A rejection of its promise is logged by the \<open>catch\<close>.\<close>

definition redirectUrl2 :: "env \<Rightarrow> db \<Rightarrow> request \<Rightarrow> outcome" where
  "redirectUrl2 e d req =
     (case findActive (db_urls d) (params_shortCode req) of
        None \<Rightarrow> ([Responded (Json 404 False ''Short URL not found'' NoData)], d)
      | Some u \<Rightarrow>
          if isExpired e u
          then ([Responded (Json 410 False ''This short URL has expired'' NoData)], d)
          else
            (let t = trackClick e d u req
             in (Responded (Redirect 301 (originalUrl u)) # fst (fst t) @
                 (case snd (fst t) of
                    None \<Rightarrow> []
                  | Some err \<Rightarrow> [Logged ''Failed to track click:'' err]),
                 snd t)))"

text \<open>\<open>deleteUrl\<close>: the three writes of \<open>Promise.all\<close> are started together; the handler's
  promise is rejected when one of them fails, and the others are not undone.\<close>

definition deleteUrl2 :: "env \<Rightarrow> db \<Rightarrow> request \<Rightarrow> outcome" where
  "deleteUrl2 e d req =
     (case req_user req of
        None \<Rightarrow> ([Thrown (Error ''TypeError'')], d)
      | Some uid \<Rightarrow>
          (case findUrlForUser (db_urls d) (params_id req) uid of
             None \<Rightarrow> ([Responded (Json 404 False ''URL not found'' NoData)], d)
           | Some u \<Rightarrow>
               (let r1 = Click_deleteMany e d (url_id u);
                    d1 = db_after d r1;
                    r2 = Url_findByIdAndDelete e d1 (url_id u);
                    d2 = db_after d1 r2;
                    r3 = incUser e d2 uid (- 1) (- clicks u);
                    d3 = db_after d2 r3
                in (persisted ClickDeleteMany r1 @ persisted UrlDelete r2 @
                    persisted UserUpdate r3 @
                    (case failures [r1, r2, r3] of
                       [] \<Rightarrow>
                         [Responded (Json 200 True ''URL and associated data deleted'' NoData)]
                     | err # _ \<Rightarrow> [Thrown err]),
                    d3))))"

definition createShortUrl2_store :: "env \<Rightarrow> db \<Rightarrow> request \<Rightarrow> string \<Rightarrow> string \<Rightarrow> outcome" where
  "createShortUrl2_store e d req normalizedUrl code =
     (let b = body req in
      if (case body_expiresAt b of None \<Rightarrow> False | Some t \<Rightarrow> t \<le> now e)
      then ([Responded (Json 400 False ''Expiration date must be in the future'' NoData)], d)
      else
        (case Url_create e d
           \<lparr>url_id = newObjectId e, originalUrl = normalizedUrl, shortCode = code,
            customAlias = (if truthy (body_customAlias b) then Some code else None),
            user = req_user req,
            title =
              Some (orElse (map_option trim (body_title b)) (extractDomain e normalizedUrl)),
            description = map_option trim (body_description b),
            clicks = 0, isActive = True, expiresAt = body_expiresAt b,
            tags = cleanTags (body_tags b), lastClickedAt = None,
            createdAt = now e, updatedAt = now e\<rparr> of
           Inl err \<Rightarrow> ([Thrown err], d)
         | Inr (newUrl, d1) \<Rightarrow>
             (case (case req_user req of
                      None \<Rightarrow> Inr d1
                    | Some uid \<Rightarrow> incUser e d1 uid 1 0) of
                Inl err \<Rightarrow> ([Persisted UrlCreate, Thrown err], d1)
              | Inr d2 \<Rightarrow>
                  (Persisted UrlCreate #
                   (case req_user req of None \<Rightarrow> [] | Some _ \<Rightarrow> [Persisted UserUpdate]) @
                   [Responded (Json 201 True ''Short URL created successfully''
                      (UrlWithQr newUrl
                         (generateQRCode e
                            (protocol req @ ''://'' @ host req @ ''/'' @ shortCode newUrl))))],
                   d2))))"

text \<open>\<open>createShortUrl\<close>: the owner's links are searched before a code is chosen and before
  the custom alias is validated.\<close>

definition createShortUrl2 :: "env \<Rightarrow> db \<Rightarrow> request \<Rightarrow> outcome" where
  "createShortUrl2 e d req =
     (let b = body req in
      if \<not> truthy (body_originalUrl b)
      then ([Responded (Json 400 False ''Original URL is required'' NoData)], d)
      else
        (let normalizedUrl = normalizeUrl (trim (orElse (body_originalUrl b) [])) in
         if \<not> isValidUrl e normalizedUrl
         then ([Responded (Json 400 False
                  ''A valid URL with http:// or https:// is required'' NoData)], d)
         else
           (case (case req_user req of
                    None \<Rightarrow> None
                  | Some uid \<Rightarrow>
                      find (\<lambda>u. originalUrl u = normalizedUrl \<and> user u = Some uid)
                        (db_urls d)) of
              Some existingUrl \<Rightarrow>
                ([Responded (Json 200 True ''URL already shortened'' (UrlData existingUrl))], d)
            | None \<Rightarrow>
                (case (if truthy (body_customAlias b)
                       then Inr (trim (orElse (body_customAlias b) []))
                       else generateShortCode e (db_urls d) 6) of
                   Inl err \<Rightarrow> ([Thrown err], d)
                 | Inr code \<Rightarrow>
                     (case (if truthy (body_customAlias b)
                            then validateCustomAlias (db_urls d) code else Inr True) of
                        Inl err \<Rightarrow> ([Responded (Json 400 False (message err) NoData)], d)
                      | Inr _ \<Rightarrow> createShortUrl2_store e d req normalizedUrl code)))))"

text \<open>The names that an object literal inherits from \<open>Object.prototype\<close>.\<close>

definition objectPrototypeKeys :: "string list" where
  "objectPrototypeKeys =
     [''constructor'', ''__defineGetter__'', ''__defineSetter__'', ''hasOwnProperty'',
      ''__lookupGetter__'', ''__lookupSetter__'', ''isPrototypeOf'', ''propertyIsEnumerable'',
      ''toString'', ''valueOf'', ''__proto__'', ''toLocaleString'']"

text \<open>\<open>{ '24h': 1, '7d': 7, '30d': 30, '90d': 90 }[period] || 7\<close>, as a number of days: the
  lookup of an inherited name gives a function or an object, which is truthy and whose
  product with a number is \<open>NaN\<close>, here \<open>None\<close>.\<close>

definition daysToSubtract2 :: "string \<Rightarrow> int option" where
  "daysToSubtract2 p =
     (if p = ''24h'' then Some 1 else if p = ''7d'' then Some 7 else if p = ''30d'' then Some 30
      else if p = ''90d'' then Some 90
      else if p \<in> set objectPrototypeKeys then None
      else Some 7)"

text \<open>\<open>getDateRange\<close>: the start of a named period is an Invalid Date when the number of its
  days is \<open>NaN\<close>.\<close>

definition getDateRange :: "env \<Rightarrow> request_query \<Rightarrow> date option \<times> date option" where
  "getDateRange e q =
     (if truthy (query_startDate q) \<and> truthy (query_endDate q)
      then (newDate e (orElse (query_startDate q) []), newDate e (orElse (query_endDate q) []))
      else
        (map_option (\<lambda>n. now e - n * 24 * 60 * 60 * 1000)
           (daysToSubtract2 (case query_period q of None \<Rightarrow> ''7d'' | Some p \<Rightarrow> p)),
         Some (now e)))"

text \<open>The paths that the query of the recent clicks selects, of the hydrated document.\<close>

definition selectRecent :: "click \<Rightarrow> recent" where
  "selectRecent c =
     RecentDoc (timestamp c) (hydrated ''Unknown'' (country c)) (hydrated ''Unknown'' (city c))
       (hydrated ''Unknown'' (browser_name c)) (hydrated ''Unknown'' (os_name c))
       (hydrated ''unknown'' (device_type c))"

text \<open>\<open>getUrlAnalytics\<close>: one \<open>$facet\<close> pipeline over the window, then the \<open>find\<close> of the recent
  clicks, which casts the two dates of its filter and is rejected for an Invalid Date; a
  group key that is absent or empty is replaced by a placeholder.\<close>

definition labelled :: "string \<Rightarrow> (string option \<times> nat) list \<Rightarrow> (string option \<times> nat) list" where
  "labelled placeholder gs = map (\<lambda>g. (Some (orElse (fst g) placeholder), snd g)) gs"

definition getUrlAnalytics2 :: "env \<Rightarrow> db \<Rightarrow> request \<Rightarrow> outcome" where
  "getUrlAnalytics2 e d req =
     (case req_user req of
        None \<Rightarrow> ([Thrown (Error ''TypeError'')], d)
      | Some uid \<Rightarrow>
          (case findUrlForUser (db_urls d) (params_id req) uid of
             None \<Rightarrow> ([Responded (Json 404 False ''URL not found'' NoData)], d)
           | Some u \<Rightarrow>
               (case getDateRange e (query req) of
                  (Some start, Some end') \<Rightarrow>
                    (let m = matchStage (url_id u) start end' (db_clicks d)
                     in ([Responded (Json 200 True []
                           (AnalyticsData
                              \<lparr>an_url = summaryOfUrl u,
                               period_start = start, period_end = end',
                               period_name = None,
                               summary_totalClicks = fst (summaryOf m),
                               summary_uniqueVisitors = snd (summaryOf m),
                               an_charts =
                                 \<lparr>clicksByDate =
                                    sortByIdAsc
                                      (groupCount (\<lambda>c. dateToString e (timestamp c)) m),
                                  clicksByCountry = labelled ''Unknown'' (topTen country m),
                                  clicksByBrowser =
                                    labelled ''Unknown'' (topTen browser_name m),
                                  clicksByOS = labelled ''Unknown'' (topTen os_name m),
                                  clicksByDevice =
                                    labelled ''desktop''
                                      (sortByClicksDesc (groupCount device_type m))\<rparr>,
                               recentClicks = map selectRecent (recentFifty m)\<rparr>))],
                         d))
                | _ \<Rightarrow> ([Thrown (CastError ''timestamp'')], d))))"



text \<open>The database after the three writes of a deletion of the link \<open>u\<close> by its owner.\<close>

definition afterDelete :: "db \<Rightarrow> url \<Rightarrow> objectId \<Rightarrow> db" where
  "afterDelete d u uid =
     \<lparr>db_urls = removeFirst (\<lambda>v. url_id v = url_id u) (db_urls d),
      db_clicks = filter (\<lambda>c. click_url c \<noteq> url_id u) (db_clicks d),
      db_users = updateFirst (\<lambda>a. account_id a = uid)
         (\<lambda>a. a\<lparr>urlsCount := urlsCount a - 1, totalClicks := totalClicks a - clicks u\<rparr>)
         (db_users d)\<rparr>"


text \<open>A response of a creation that did not find a link to return: a refusal, or the
  link that the request has added to the registry.\<close>

definition created :: "db \<Rightarrow> outcome \<Rightarrow> response \<Rightarrow> bool" where
  "created d out r =
     ((\<exists>m. r = Json 400 False m NoData)
      \<or> (\<exists>u q. r = Json 201 True ''Short URL created successfully'' (UrlWithQr u q)
            \<and> db_urls (snd out) = db_urls d @ [u]))"


text \<open>The report of the first and of the second controller for the clicks \<open>m\<close> of the
  window from \<open>start\<close> to \<open>end'\<close>.\<close>

definition reportData :: "env \<Rightarrow> url \<Rightarrow> request \<Rightarrow> date \<Rightarrow> date \<Rightarrow> click list \<Rightarrow> analytics" where
  "reportData e u req start end' m =
     \<lparr>an_url = summaryOfUrl u,
      period_start = start, period_end = end',
      period_name = Some (case query_period (query req) of None \<Rightarrow> ''7d'' | Some p \<Rightarrow> p),
      summary_totalClicks = fst (summaryOf m),
      summary_uniqueVisitors = snd (summaryOf m),
      an_charts =
        \<lparr>clicksByDate =
           take 100 (sortByIdAsc (groupCount (\<lambda>c. dateToString e (timestamp c)) m)),
         clicksByCountry = topTen country m,
         clicksByBrowser = topTen browser_name m,
         clicksByOS = topTen os_name m,
         clicksByDevice = sortByClicksDesc (groupCount device_type m)\<rparr>,
      recentClicks = map renderRecent (recentFifty m)\<rparr>"

definition reportData2 :: "env \<Rightarrow> url \<Rightarrow> request \<Rightarrow> date \<Rightarrow> date \<Rightarrow> click list \<Rightarrow> analytics" where
  "reportData2 e u req start end' m =
     \<lparr>an_url = summaryOfUrl u,
      period_start = start, period_end = end',
      period_name = None,
      summary_totalClicks = fst (summaryOf m),
      summary_uniqueVisitors = snd (summaryOf m),
      an_charts =
        \<lparr>clicksByDate = sortByIdAsc (groupCount (\<lambda>c. dateToString e (timestamp c)) m),
         clicksByCountry = labelled ''Unknown'' (topTen country m),
         clicksByBrowser = labelled ''Unknown'' (topTen browser_name m),
         clicksByOS = labelled ''Unknown'' (topTen os_name m),
         clicksByDevice = labelled ''desktop'' (sortByClicksDesc (groupCount device_type m))\<rparr>,
      recentClicks = map selectRecent (recentFifty m)\<rparr>"




section \<open>Example data and observations\<close>

text \<open>An environment in which no write fails and every candidate of the generator is a run
  of the letter \<open>a\<close>, and the same environment with one failing write.\<close>

definition env0 :: env where
  "env0 =
     \<lparr>now = 1700000000000,
      nanoid = (\<lambda>k n. replicate n (CHR ''a'')),
      math_random = (\<lambda>k i. 0),
      urlProtocol =
        (\<lambda>u. if prefix ''https://'' u then Some ''https:''
             else if prefix ''http://'' u then Some ''http:'' else None),
      urlHostname =
        (\<lambda>u. if prefix ''https://'' u then Some (takeWhile (\<lambda>c. c \<noteq> CHR ''/'') (drop 8 u))
             else None),
      validator_isURL = hasHttpScheme,
      encodeURIComponent = (\<lambda>u. u),
      dateToString = (\<lambda>t. if t < 1699920000000 then ''2023-11-13'' else ''2023-11-14''),
      newDate =
        (\<lambda>s. if s = ''2023-11-13T18:26:40Z'' then Some 1699900000000
             else if s = ''2023-11-14T22:13:20Z'' then Some 1700000000000 else None),
      newObjectId = 100,
      write_fails = (\<lambda>op. False)\<rparr>"

definition failing :: "db_op \<Rightarrow> env" where
  "failing op = env0\<lparr>write_fails := (\<lambda>x. x = op)\<rparr>"

definition link :: "objectId \<Rightarrow> string \<Rightarrow> url" where
  "link i code =
     \<lparr>url_id = i, originalUrl = ''https://example.com/page'', shortCode = code,
      customAlias = None, user = Some 1, title = Some ''example.com'', description = None,
      clicks = 42, isActive = True, expiresAt = None, tags = [], lastClickedAt = None,
      createdAt = 1690000000000, updatedAt = 1690000000000\<rparr>"

definition click0 :: "objectId \<Rightarrow> string option \<Rightarrow> date \<Rightarrow> click" where
  "click0 i ctry t =
     \<lparr>click_url = i, click_user = None, ipAddress = ''203.0.113.7'',
      userAgent = ''Mozilla/5.0'', referer = None, country = ctry, city = Some ''Unknown'',
      browser_name = Some ''Chrome'', browser_version = Some ''120.0'',
      os_name = Some ''Windows'', os_version = Some ''10'',
      device_type = Some ''desktop'', device_brand = Some ''Unknown'',
      device_model = Some ''Unknown'', timestamp = t\<rparr>"

definition owner1 :: account where
  "owner1 = \<lparr>account_id = 1, urlsCount = 3, totalClicks = 50\<rparr>"

definition db0 :: db where
  "db0 =
     \<lparr>db_urls = [link 7 ''abc123'', (link 8 ''old456'')\<lparr>expiresAt := Some 1600000000000\<rparr>,
                 (link 9 ''off789'')\<lparr>isActive := False\<rparr>],
      db_clicks = [click0 7 (Some ''US'') 1699990000000, click0 8 (Some ''DE'') 1699990000000,
                   click0 7 (Some ''Unknown'') 1699995000000],
      db_users = [owner1]\<rparr>"

definition browserHeaders :: "string \<Rightarrow> string option" where
  "browserHeaders h =
     (if h = ''user-agent''
      then Some ''Mozilla/5.0 (Windows NT 10.0) Chrome/120.0''
      else None)"

definition botHeaders :: "string \<Rightarrow> string option" where
  "botHeaders h =
     (if h = ''user-agent''
      then Some ''Googlebot/2.1 (+http://www.google.com/bot.html)''
      else None)"


definition noHeaders :: "string \<Rightarrow> string option" where
  "noHeaders h = None"

definition emptyBody :: request_body where
  "emptyBody =
     \<lparr>body_originalUrl = None, body_customAlias = None, body_title = None,
      body_description = None, body_tags = None, body_expiresAt = None\<rparr>"

definition emptyQuery :: request_query where
  "emptyQuery = \<lparr>query_startDate = None, query_endDate = None, query_period = None\<rparr>"

text \<open>A request for the code \<open>code\<close> and the link \<open>i\<close>, with the given headers, from the
  given user.\<close>

definition request0 :: "objectId option \<Rightarrow> string \<Rightarrow> objectId \<Rightarrow> (string \<Rightarrow> string option) \<Rightarrow> request" where
  "request0 uid code i hs =
     \<lparr>req_user = uid, params_shortCode = code, params_id = i, headers = hs,
      connection_remoteAddress = Some ''203.0.113.7'', socket_remoteAddress = None,
      connection_socket_remoteAddress = None, req_ip = None,
      protocol = ''https'', host = ''sho.rt'', body = emptyBody, query = emptyQuery\<rparr>"

definition createRequest :: "objectId option \<Rightarrow> string \<Rightarrow> string option \<Rightarrow> request" where
  "createRequest uid dest alias =
     (request0 uid [] 0 browserHeaders)
       \<lparr>body := emptyBody\<lparr>body_originalUrl := Some dest, body_customAlias := alias\<rparr>\<rparr>"

text \<open>Eleven clicks of link 7 inside one window: seven from \<open>US\<close>, three from \<open>DE\<close>, one from
  \<open>Unknown\<close>.\<close>

definition elevenClicks :: "click list" where
  "elevenClicks =
     map (\<lambda>t. click0 7 (Some ''US'') (1699990000000 + t)) [1, 2, 3, 4, 5, 6, 7]
     @ map (\<lambda>t. click0 7 (Some ''DE'') (1699990000000 + t)) [8, 9, 10]
     @ [click0 7 (Some ''Unknown'') 1699990000011]"

definition analyticsRequest :: request where
  "analyticsRequest =
     (request0 (Some 1) [] 7 browserHeaders)
       \<lparr>query := \<lparr>query_startDate = Some ''2023-11-13T18:26:40Z'',
                  query_endDate = Some ''2023-11-14T22:13:20Z'', query_period = None\<rparr>\<rparr>"

text \<open>The request of the owner for the report on link 7 over the period \<open>p\<close>.\<close>

definition periodRequest :: "string \<Rightarrow> request" where
  "periodRequest p =
     (request0 (Some 1) [] 7 browserHeaders)\<lparr>query := emptyQuery\<lparr>query_period := Some p\<rparr>\<rparr>"

text \<open>A registry that holds the ten candidates of \<open>env0\<close> for the lengths 6 to 15.\<close>

definition fullRegistry :: "url list" where
  "fullRegistry = map (\<lambda>n. link n (replicate n (CHR ''a''))) [6..<16]"

text \<open>The response of a request, when it sent one, and the report in it.\<close>

definition responses :: "outcome \<Rightarrow> response list" where
  "responses out = concat (map (\<lambda>ev. case ev of Responded r \<Rightarrow> [r] | _ \<Rightarrow> []) (fst out))"

definition reportOf :: "outcome \<Rightarrow> analytics option" where
  "reportOf out =
     (case responses out of
        [Json _ _ _ (AnalyticsData a)] \<Rightarrow> Some a
      | _ \<Rightarrow> None)"

definition totalOf :: "outcome \<Rightarrow> nat option" where
  "totalOf out = map_option summary_totalClicks (reportOf out)"

definition countryChartOf :: "outcome \<Rightarrow> (string option \<times> nat) list option" where
  "countryChartOf out = map_option (\<lambda>a. clicksByCountry (an_charts a)) (reportOf out)"





section \<open>Properties of the string helpers\<close>

lemma toLowerAscii_non_upper:
  assumes "c \<notin> set ''ABCDEFGHIJKLMNOPQRSTUVWXYZ''"
  shows "toLowerAscii c = c"
proof -
  from assms
  have "map_of (zip ''ABCDEFGHIJKLMNOPQRSTUVWXYZ'' ''abcdefghijklmnopqrstuvwxyz'') c = None"
    by (subst map_of_eq_None_iff) simp
  then show ?thesis unfolding toLowerAscii_def by simp
qed

lemma toLowerAscii_white: "isWhiteSpace c \<Longrightarrow> toLowerAscii c = c"
proof (rule toLowerAscii_non_upper)
  assume "isWhiteSpace c"
  then consider "c = CHR 0x09" | "c = CHR 0x0A" | "c = CHR 0x0B" | "c = CHR 0x0C"
    | "c = CHR 0x0D" | "c = CHR 0x20" | "c = CHR 0xA0"
    unfolding isWhiteSpace_def by auto
  then show "c \<notin> set ''ABCDEFGHIJKLMNOPQRSTUVWXYZ''"
    by cases simp_all
qed

lemma hasHttpScheme_hd:
  assumes "hasHttpScheme s"
  shows "s \<noteq> [] \<and> \<not> isWhiteSpace (hd s)"
proof -
  from assms obtain c cs where s: "s = c # cs" and c: "toLowerAscii c = CHR ''h''"
    by (cases s) (auto simp: hasHttpScheme_def toLowerCase_def prefix_Cons)
  have "\<not> isWhiteSpace c"
  proof
    assume w: "isWhiteSpace c"
    then have "c = CHR ''h''" using c toLowerAscii_white by simp
    with w show False by (simp add: isWhiteSpace_def)
  qed
  with s show ?thesis by simp
qed

lemma trim_fixed:
  assumes "s \<noteq> []" "\<not> isWhiteSpace (hd s)" "\<not> isWhiteSpace (last s)"
  shows "trim s = s"
proof -
  from assms have front: "dropWhile isWhiteSpace s = s"
    by (simp add: dropWhile_eq_self_iff)
  from assms have "rev s \<noteq> []" "hd (rev s) = last s"
    by (simp_all add: hd_rev)
  with assms have rear: "dropWhile isWhiteSpace (rev s) = rev s"
    by (simp add: dropWhile_eq_self_iff)
  show ?thesis by (simp add: trim_def front rear)
qed

lemma trim_last: "trim s \<noteq> [] \<Longrightarrow> \<not> isWhiteSpace (last (trim s))"
proof -
  assume a: "trim s \<noteq> []"
  let ?d = "dropWhile isWhiteSpace (rev (dropWhile isWhiteSpace s))"
  from a have ne: "?d \<noteq> []" by (simp add: trim_def)
  then have "\<not> isWhiteSpace (hd ?d)" by (rule hd_dropWhile)
  moreover have "last (trim s) = hd ?d" using ne by (simp add: trim_def last_rev)
  ultimately show ?thesis by simp
qed

lemma hd_rev_dropWhile_rev:
  assumes "dropWhile P (rev xs) \<noteq> []"
  shows "hd (rev (dropWhile P (rev xs))) = hd xs"
proof -
  have "rev (takeWhile P (rev xs) @ dropWhile P (rev xs)) = xs"
    unfolding takeWhile_dropWhile_id by simp
  then have "xs = rev (dropWhile P (rev xs)) @ rev (takeWhile P (rev xs))"
    unfolding rev_append by simp
  then have "hd xs = hd (rev (dropWhile P (rev xs)) @ rev (takeWhile P (rev xs)))" by simp
  with assms show ?thesis by simp
qed

lemma trim_hd: "trim s \<noteq> [] \<Longrightarrow> \<not> isWhiteSpace (hd (trim s))"
proof -
  assume a: "trim s \<noteq> []"
  let ?d = "dropWhile isWhiteSpace s"
  from a have ne: "dropWhile isWhiteSpace (rev ?d) \<noteq> []" by (simp add: trim_def)
  have "?d \<noteq> []"
  proof
    assume e: "?d = []"
    show False using ne unfolding e by simp
  qed
  then have "\<not> isWhiteSpace (hd ?d)" by (rule hd_dropWhile)
  moreover have "hd (trim s) = hd ?d"
    unfolding trim_def using ne by (rule hd_rev_dropWhile_rev)
  ultimately show ?thesis by simp
qed

lemma trim_idem: "trim (trim s) = trim s"
proof (cases "trim s = []")
  case True
  have "trim [] = []" by (simp add: trim_def)
  with True show ?thesis by simp
next
  case False
  then show ?thesis by (intro trim_fixed trim_hd trim_last)
qed

lemma hasHttpScheme_https: "hasHttpScheme (''https://'' @ t)"
  by (simp add: hasHttpScheme_def toLowerCase_def toLowerAscii_def)

lemma trim_https: "trim (''https://'' @ trim s) = ''https://'' @ trim s"
proof (rule trim_fixed)
  show "''https://'' @ trim s \<noteq> []" by simp
  show "\<not> isWhiteSpace (hd (''https://'' @ trim s))" by (simp add: isWhiteSpace_def)
  show "\<not> isWhiteSpace (last (''https://'' @ trim s))"
  proof (cases "trim s = []")
    case True
    then show ?thesis by (simp add: isWhiteSpace_def)
  next
    case False
    then show ?thesis by (simp add: trim_last)
  qed
qed

lemma normalizeUrl_twice: "normalizeUrl (normalizeUrl s) = normalizeUrl s"
proof (cases "s = []")
  case True
  then show ?thesis by (simp add: normalizeUrl_def)
next
  case ne: False
  show ?thesis
  proof (cases "hasHttpScheme (trim s)")
    case True
    then have "trim s \<noteq> []" using hasHttpScheme_hd by blast
    with True ne show ?thesis by (simp add: normalizeUrl_def trim_idem)
  next
    case False
    with ne have "normalizeUrl s = ''https://'' @ trim s" by (simp add: normalizeUrl_def)
    moreover have "normalizeUrl (''https://'' @ trim s) = ''https://'' @ trim s"
      unfolding normalizeUrl_def Let_def trim_https using hasHttpScheme_https by simp
    ultimately show ?thesis by simp
  qed
qed

lemma normalizeUrl1_eq: "normalizeUrl1 s = normalizeUrl s"
  by (simp add: normalizeUrl1_def normalizeUrl_def)


section \<open>normalizeUrl is idempotent\<close>

text \<open>
  C10. For every string \<open>s\<close>, normalising twice is normalising once, in \<open>short.js\<close> and in
  \<open>short1.js\<close>: an input that carries an \<open>http://\<close> or \<open>https://\<close> scheme (in any letter
  case) once trimmed is returned trimmed and otherwise unchanged, and the falsy string
  \<open>''\<close> is returned as it is.
\<close>

theorem normalizeUrl_idempotent:
  "normalizeUrl (normalizeUrl s) = normalizeUrl s
   \<and> normalizeUrl1 (normalizeUrl1 s) = normalizeUrl1 s
   \<and> (hasHttpScheme (trim s) \<longrightarrow> normalizeUrl s = trim s \<and> normalizeUrl1 s = trim s)
   \<and> normalizeUrl [] = [] \<and> normalizeUrl1 [] = []"
proof -
  have "hasHttpScheme (trim s) \<longrightarrow> normalizeUrl s = trim s"
  proof
    assume h: "hasHttpScheme (trim s)"
    then have "trim s \<noteq> []" using hasHttpScheme_hd by blast
    then have "s \<noteq> []" by (auto simp: trim_def)
    with h show "normalizeUrl s = trim s" by (simp add: normalizeUrl_def)
  qed
  moreover have "normalizeUrl [] = []" by (simp add: normalizeUrl_def)
  ultimately show ?thesis by (simp add: normalizeUrl1_eq normalizeUrl_twice)
qed

theorem normalizeUrl_idempotent_witness:
  "hasHttpScheme (trim ''  HTTP://Example.com/a b  '')
   \<and> normalizeUrl ''  HTTP://Example.com/a b  '' = ''HTTP://Example.com/a b''
   \<and> normalizeUrl1 ''  HTTP://Example.com/a b  '' = ''HTTP://Example.com/a b''
   \<and> normalizeUrl (normalizeUrl ''  example.com '') = ''https://example.com''
   \<and> normalizeUrl (normalizeUrl ''   '') = ''https://''"
proof -
  have h: "hasHttpScheme (trim ''  HTTP://Example.com/a b  '')"
    by (simp add: hasHttpScheme_def trim_def isWhiteSpace_def toLowerCase_def toLowerAscii_def)
  have t: "trim ''  HTTP://Example.com/a b  '' = ''HTTP://Example.com/a b''"
    by (simp add: trim_def isWhiteSpace_def)
  have e: "normalizeUrl ''  example.com '' = ''https://example.com''"
    by (simp add: normalizeUrl_def hasHttpScheme_def trim_def isWhiteSpace_def toLowerCase_def
        toLowerAscii_def)
  have b: "normalizeUrl ''   '' = ''https://''"
    by (simp add: normalizeUrl_def hasHttpScheme_def trim_def isWhiteSpace_def toLowerCase_def
        toLowerAscii_def)
  from normalizeUrl_idempotent [of "''  HTTP://Example.com/a b  ''"] h t
  have "normalizeUrl ''  HTTP://Example.com/a b  '' = ''HTTP://Example.com/a b''"
    and "normalizeUrl1 ''  HTTP://Example.com/a b  '' = ''HTTP://Example.com/a b''"
    by simp_all
  moreover from normalizeUrl_idempotent [of "''  example.com ''"] e
  have "normalizeUrl (normalizeUrl ''  example.com '') = ''https://example.com''" by simp
  moreover from normalizeUrl_idempotent [of "''   ''"] b
  have "normalizeUrl (normalizeUrl ''   '') = ''https://''" by simp
  ultimately show ?thesis using h by simp
qed

section \<open>The short-code generator\<close>

lemma generateShortCode_loop_closed:
  "attempts \<le> maxAttempts \<Longrightarrow>
   generateShortCode_loop e us len attempts =
     (case find (\<lambda>c. findByShortCode us c = None)
             (map (\<lambda>k. candidate e k (len + (k - attempts))) [attempts..<maxAttempts]) of
        None \<Rightarrow> Inl (Error ''Unable to generate unique short code'')
      | Some c \<Rightarrow> Inr c)"
proof (induction e us len attempts rule: generateShortCode_loop.induct)
  case (1 e us len attempts)
  show ?case
  proof (cases "attempts < maxAttempts")
    case False
    with "1.prems" have "attempts = maxAttempts" by simp
    then show ?thesis by (simp add: generateShortCode_loop.simps)
  next
    case lt: True
    then have upt: "[attempts..<maxAttempts] = attempts # [Suc attempts..<maxAttempts]"
      by (simp add: upt_conv_Cons)
    show ?thesis
    proof (cases "findByShortCode us (candidate e attempts len) = None")
      case True
      with lt show ?thesis
        by (simp add: generateShortCode_loop.simps upt)
    next
      case False
      have shift: "map (\<lambda>k. candidate e k (len + (k - attempts))) [Suc attempts..<maxAttempts] =
            map (\<lambda>k. candidate e k (len + 1 + (k - Suc attempts))) [Suc attempts..<maxAttempts]"
      proof (rule map_cong [OF refl])
        fix k assume "k \<in> set [Suc attempts..<maxAttempts]"
        then have "Suc attempts \<le> k" by simp
        then have "len + (k - attempts) = len + 1 + (k - Suc attempts)" by arith
        then show "candidate e k (len + (k - attempts)) =
                   candidate e k (len + 1 + (k - Suc attempts))"
          by (simp only:)
      qed
      show ?thesis
      proof (cases "Suc attempts < maxAttempts")
        case True
        from "1.IH" [OF lt False] True
        have ih: "generateShortCode_loop e us (len + 1) (Suc attempts) =
          (case find (\<lambda>c. findByShortCode us c = None)
             (map (\<lambda>k. candidate e k (len + 1 + (k - Suc attempts)))
                [Suc attempts..<maxAttempts]) of
            None \<Rightarrow> Inl (Error ''Unable to generate unique short code'')
          | Some c \<Rightarrow> Inr c)"
          by simp
        have "generateShortCode_loop e us len attempts =
              generateShortCode_loop e us (len + 1) (Suc attempts)"
          using lt True by (subst generateShortCode_loop.simps) (simp add: False)
        also note ih
        finally show ?thesis
          by (simp add: False upt shift)
      next
        case nlt: False
        with lt have eq: "Suc attempts = maxAttempts" by simp
        have "generateShortCode_loop e us len attempts =
              generateShortCode_loop e us len maxAttempts"
          using lt nlt eq by (subst generateShortCode_loop.simps) (simp add: False)
        also have "\<dots> = Inl (Error ''Unable to generate unique short code'')"
          by (subst generateShortCode_loop.simps) simp
        finally show ?thesis unfolding upt using eq
          by (simp add: False)
      qed
    qed
  qed
qed

lemma generateShortCode1_loop_closed:
  "generateShortCode1_loop e us len attempts =
     (case find (\<lambda>c. findByCodeOrAlias us c = None)
             (map (\<lambda>k. nanoid e k len) [attempts..<maxAttempts - 1]) of
        None \<Rightarrow> Inl (Error ''Failed to generate unique short code'')
      | Some c \<Rightarrow> Inr c)"
proof (induction e us len attempts rule: generateShortCode1_loop.induct)
  case (1 e us len attempts)
  show ?case
  proof (cases "attempts + 1 \<ge> maxAttempts")
    case True
    then show ?thesis by (simp add: generateShortCode1_loop.simps)
  next
    case lt: False
    then have upt: "[attempts..<maxAttempts - 1] = attempts # [Suc attempts..<maxAttempts - 1]"
      by (simp add: upt_conv_Cons)
    show ?thesis
    proof (cases "findByCodeOrAlias us (nanoid e attempts len) = None")
      case True
      with lt show ?thesis
        unfolding upt by (simp add: generateShortCode1_loop.simps)
    next
      case False
      have "generateShortCode1_loop e us len attempts =
            generateShortCode1_loop e us len (attempts + 1)"
        using lt by (subst generateShortCode1_loop.simps) (simp add: False)
      also note "1.IH" [OF lt False]
      finally show ?thesis unfolding upt by (simp add: False)
    qed
  qed
qed

lemma find_Some_sat: "find P xs = Some x \<Longrightarrow> P x \<and> x \<in> set xs"
  by (induction xs) (auto split: if_splits)

lemma findByShortCode_None: "findByShortCode us c = None \<longleftrightarrow> c \<notin> shortCode ` set us"
  by (auto simp: findByShortCode_def find_None_iff)

lemma findByCodeOrAlias_None:
  "findByCodeOrAlias us c = None \<longleftrightarrow> c \<notin> shortCode ` set us \<and> Some c \<notin> customAlias ` set us"
  by (force simp: findByCodeOrAlias_def find_None_iff image_iff)

lemma length_replaceDashes: "length (replaceDashes pick s) = length s"
  by (simp add: replaceDashes_def)

lemma generateShortCode_closed:
  "generateShortCode e us len =
     (case find (\<lambda>c. findByShortCode us c = None)
             (map (\<lambda>k. candidate e k (len + k)) [0..<10]) of
        None \<Rightarrow> Inl (Error ''Unable to generate unique short code'')
      | Some c \<Rightarrow> Inr c)"
  using generateShortCode_loop_closed [of 0 e us len]
  by (simp add: generateShortCode_def maxAttempts_def)

lemma generateShortCode1_closed:
  "generateShortCode1 e us len =
     (case find (\<lambda>c. findByCodeOrAlias us c = None) (map (\<lambda>k. nanoid e k len) [0..<9]) of
        None \<Rightarrow> Inl (Error ''Failed to generate unique short code'')
      | Some c \<Rightarrow> Inr c)"
  using generateShortCode1_loop_closed [of e us len 0]
  by (simp add: generateShortCode1_def maxAttempts_def)

text \<open>
  C1, as the code has it. A candidate that collides with the registry is replaced by a
  fresh one. In \<open>short.js\<close> the length grows by one after every collision, not after ten:
  the \<open>k\<close>-th candidate (counting from 0) is asked for with \<open>len + k\<close> characters, and
  replacing its dashes keeps its length; the result is the first of the ten candidates
  that is not a stored short code, and the capacity error when all ten collide. In
  \<open>short1.js\<close> the length never grows and the error comes when nine candidates have
  collided. Neither returns a code of the registry.
\<close>

theorem generateShortCode_retries:
  "generateShortCode e us len =
     (case find (\<lambda>c. findByShortCode us c = None)
             (map (\<lambda>k. candidate e k (len + k)) [0..<10]) of
        None \<Rightarrow> Inl (Error ''Unable to generate unique short code'')
      | Some c \<Rightarrow> Inr c)
   \<and> generateShortCode1 e us len =
     (case find (\<lambda>c. findByCodeOrAlias us c = None) (map (\<lambda>k. nanoid e k len) [0..<9]) of
        None \<Rightarrow> Inl (Error ''Failed to generate unique short code'')
      | Some c \<Rightarrow> Inr c)
   \<and> length (candidate e k n) = length (nanoid e k n)
   \<and> (\<forall>code. generateShortCode e us len = Inr code \<longrightarrow> code \<notin> shortCode ` set us)
   \<and> (\<forall>code. generateShortCode1 e us len = Inr code \<longrightarrow>
         code \<notin> shortCode ` set us \<and> Some code \<notin> customAlias ` set us)"
proof -
  have fresh: "code \<notin> shortCode ` set us" if "generateShortCode e us len = Inr code" for code
  proof -
    from that have "find (\<lambda>c. findByShortCode us c = None)
        (map (\<lambda>k. candidate e k (len + k)) [0..<10]) = Some code"
      unfolding generateShortCode_closed by (simp split: option.splits)
    then have "findByShortCode us code = None" by (auto dest: find_Some_sat)
    then show ?thesis by (simp add: findByShortCode_None)
  qed
  have fresh1: "code \<notin> shortCode ` set us \<and> Some code \<notin> customAlias ` set us"
    if "generateShortCode1 e us len = Inr code" for code
  proof -
    from that have "find (\<lambda>c. findByCodeOrAlias us c = None)
        (map (\<lambda>k. nanoid e k len) [0..<9]) = Some code"
      unfolding generateShortCode1_closed by (simp split: option.splits)
    then have "findByCodeOrAlias us code = None" by (auto dest: find_Some_sat)
    then show ?thesis by (simp add: findByCodeOrAlias_None)
  qed
  show ?thesis
    using generateShortCode_closed [of e us len] generateShortCode1_closed [of e us len]
      fresh fresh1 length_replaceDashes
    by (simp add: candidate_def)
qed

text \<open>The theorem at a registry that holds the first two candidates.\<close>

theorem generateShortCode_retries_witness:
  "generateShortCode env0 [link 1 ''aaaaaa'', link 2 ''aaaaaaa''] 6 = Inr ''aaaaaaaa''
   \<and> ''aaaaaaaa'' \<notin> shortCode ` set [link 1 ''aaaaaa'', link 2 ''aaaaaaa'']
   \<and> generateShortCode1 env0 [link 1 ''aaaaaa''] 8 = Inr ''aaaaaaaa''
   \<and> Some ''aaaaaaaa'' \<notin> customAlias ` set [link 1 ''aaaaaa'']"
proof -
  have g: "generateShortCode env0 [link 1 ''aaaaaa'', link 2 ''aaaaaaa''] 6 = Inr ''aaaaaaaa''"
    by code_simp
  have g1: "generateShortCode1 env0 [link 1 ''aaaaaa''] 8 = Inr ''aaaaaaaa''"
    by code_simp
  from generateShortCode_retries [of env0 "[link 1 ''aaaaaa'', link 2 ''aaaaaaa'']" 6 0 0] g
  have "''aaaaaaaa'' \<notin> shortCode ` set [link 1 ''aaaaaa'', link 2 ''aaaaaaa'']"
    by blast
  moreover
  from generateShortCode_retries [of env0 "[link 1 ''aaaaaa'']" 8 0 0] g1
  have "Some ''aaaaaaaa'' \<notin> customAlias ` set [link 1 ''aaaaaa'']"
    by blast
  ultimately show ?thesis using g g1 by simp
qed

text \<open>
  Against C1 as stated: after one collision the next candidate is already one character
  longer; after ten consecutive collisions \<open>short.js\<close> gives up, although the longer code
  it would try next is free; \<open>short1.js\<close> gives up without ever trying a longer code.
\<close>

theorem generateShortCode_escalation_counterexample:
  "generateShortCode env0 [link 1 ''aaaaaa''] 6 = Inr ''aaaaaaa''
   \<and> generateShortCode env0 fullRegistry 6
       = Inl (Error ''Unable to generate unique short code'')
   \<and> findByShortCode fullRegistry ''aaaaaaaaaaaaaaaa'' = None
   \<and> generateShortCode1 env0 [link 1 ''aaaaaaaa''] 8
       = Inl (Error ''Failed to generate unique short code'')"
  by code_simp

section \<open>The redirect resolver\<close>

lemma findActive_None:
  "findActive us code = None \<longleftrightarrow>
     (\<forall>u\<in>set us. (shortCode u = code \<or> customAlias u = Some code) \<longrightarrow> \<not> isActive u)"
  by (auto simp: findActive_def find_None_iff)

lemma isBot_header: "isBot (Some (orElse h [])) = isBot h"
  by (cases h) (simp_all add: isBot_def truthy_def orElse_def)

lemma isExpired_past: "expiresAt u = Some t \<Longrightarrow> t < now e \<Longrightarrow> isExpired e u"
  by (simp add: isExpired_def)

lemma redirectUrl_not_found:
  "findActive (db_urls d) (params_shortCode req) = None \<Longrightarrow>
   redirectUrl e d req = ([Responded (Json 404 False ''Short URL not found'' NoData)], d)"
  by (simp add: redirectUrl_def)

lemma redirectUrl2_not_found:
  "findActive (db_urls d) (params_shortCode req) = None \<Longrightarrow>
   redirectUrl2 e d req = ([Responded (Json 404 False ''Short URL not found'' NoData)], d)"
  by (simp add: redirectUrl2_def)

lemma redirectUrl_expired:
  "findActive (db_urls d) (params_shortCode req) = Some u \<Longrightarrow> isExpired e u \<Longrightarrow>
   redirectUrl e d req = ([Responded (Json 410 False ''Short URL has expired'' NoData)], d)"
  by (simp add: redirectUrl_def)

lemma redirectUrl2_expired:
  "findActive (db_urls d) (params_shortCode req) = Some u \<Longrightarrow> isExpired e u \<Longrightarrow>
   redirectUrl2 e d req = ([Responded (Json 410 False ''This short URL has expired'' NoData)], d)"
  by (simp add: redirectUrl2_def)

lemma redirectUrl_bot:
  "findActive (db_urls d) (params_shortCode req) = Some u \<Longrightarrow> \<not> isExpired e u \<Longrightarrow>
   isBot (headers req ''user-agent'') \<Longrightarrow>
   redirectUrl e d req = ([Responded (Redirect 301 (originalUrl u))], d)"
  by (simp add: redirectUrl_def isBot_header)

lemma trackClick_bot:
  "isBot (headers req ''user-agent'') \<Longrightarrow> trackClick e d u req = (([], None), d)"
  by (simp add: trackClick_def isBot_header)

lemma redirectUrl2_bot:
  "findActive (db_urls d) (params_shortCode req) = Some u \<Longrightarrow> \<not> isExpired e u \<Longrightarrow>
   isBot (headers req ''user-agent'') \<Longrightarrow>
   redirectUrl2 e d req = ([Responded (Redirect 301 (originalUrl u))], d)"
  by (simp add: redirectUrl2_def trackClick_bot)

text \<open>The writes of click recording all succeed.\<close>

lemma redirectUrl_recorded:
  assumes "findActive (db_urls d) (params_shortCode req) = Some u" "\<not> isExpired e u"
    and "\<not> isBot (headers req ''user-agent'')"
    and "validClick (clickData e u req)" "\<not> write_fails e ClickCreate"
    and "0 \<le> clicks u + 1" "\<not> write_fails e UrlSave"
    and "user u = None \<or> \<not> write_fails e UserUpdate"
  shows "responses (redirectUrl e d req) = [Redirect 301 (originalUrl u)]"
  using assms
  by (auto simp: redirectUrl_def isBot_header Click_create_def incrementClicks_def incUser_def
      responses_def split: option.splits)

lemma redirectUrl_rejected:
  assumes "findActive (db_urls d) (params_shortCode req) = Some u" "\<not> isExpired e u"
    and "\<not> isBot (headers req ''user-agent'')"
    and "\<not> (validClick (clickData e u req) \<and> \<not> write_fails e ClickCreate
          \<and> 0 \<le> clicks u + 1 \<and> \<not> write_fails e UrlSave
          \<and> (user u = None \<or> \<not> write_fails e UserUpdate))"
  shows "responses (redirectUrl e d req) = [] \<and> (\<exists>err. last (fst (redirectUrl e d req)) = Thrown err)"
  using assms
  by (auto simp: redirectUrl_def isBot_header Click_create_def incrementClicks_def incUser_def
      responses_def split: option.splits)

lemma responses_Cons_Responded: "responses (Responded r # evs, d) = r # responses (evs, d)"
  by (simp add: responses_def)

lemma responses_append: "responses (xs @ ys, d) = responses (xs, d) @ responses (ys, d)"
  by (simp add: responses_def)

lemma responses_persisted: "responses (persisted op r, d) = []"
  by (cases r) (simp_all add: persisted_def responses_def)

lemma trackClick_no_response: "responses (fst (fst (trackClick e d u req)), d') = []"
  by (simp add: trackClick_def Let_def responses_append responses_persisted split: option.splits)
    (simp add: responses_def)

lemma redirectUrl2_valid:
  assumes "findActive (db_urls d) (params_shortCode req) = Some u" "\<not> isExpired e u"
  shows "responses (redirectUrl2 e d req) = [Redirect 301 (originalUrl u)]"
proof -
  have "responses (redirectUrl2 e d req) =
        Redirect 301 (originalUrl u) #
          responses (fst (fst (trackClick e d u req)), snd (trackClick e d u req))
          @ responses ((case snd (fst (trackClick e d u req)) of None \<Rightarrow> []
                       | Some err \<Rightarrow> [Logged ''Failed to track click:'' err]),
                      snd (trackClick e d u req))"
    using assms
    by (simp add: redirectUrl2_def Let_def responses_Cons_Responded responses_append)
  moreover have "responses ((case snd (fst (trackClick e d u req)) of None \<Rightarrow> []
                       | Some err \<Rightarrow> [Logged ''Failed to track click:'' err]),
                      snd (trackClick e d u req)) = []"
    by (cases "snd (fst (trackClick e d u req))") (simp_all add: responses_def)
  ultimately show ?thesis by (simp add: trackClick_no_response)
qed

lemma findActive_Some:
  "findActive us code = Some u \<Longrightarrow>
     u \<in> set us \<and> (shortCode u = code \<or> customAlias u = Some code) \<and> isActive u"
  by (auto simp: findActive_def find_Some_iff)

text \<open>
  C2, as the code has it. A request whose code no link has as short code or custom alias, or
  only links that are not active, is answered 404 by both controllers, whatever the
  expiration; the link that \<open>findActive\<close> returns is an active link with that code. A
  request for an active link whose expiration lies in the past is answered 410, with the
  database unchanged (no click) and no redirect. Otherwise the refactored controller
  answers with the 301 redirect to the destination; \<open>url.controller.js\<close> does so when the
  request is a bot's or every write of click recording succeeds, and otherwise its handler
  is rejected with the error and sends no response.
\<close>

theorem redirect_resolution:
  "((\<forall>u\<in>set (db_urls d).
        (shortCode u = params_shortCode req \<or> customAlias u = Some (params_shortCode req))
        \<longrightarrow> \<not> isActive u) \<longrightarrow>
      redirectUrl e d req = ([Responded (Json 404 False ''Short URL not found'' NoData)], d)
      \<and> redirectUrl2 e d req = ([Responded (Json 404 False ''Short URL not found'' NoData)], d))
   \<and> (\<forall>u. findActive (db_urls d) (params_shortCode req) = Some u \<longrightarrow>
         u \<in> set (db_urls d) \<and> isActive u
         \<and> (shortCode u = params_shortCode req \<or> customAlias u = Some (params_shortCode req)))
   \<and> (\<forall>u t. findActive (db_urls d) (params_shortCode req) = Some u
          \<and> expiresAt u = Some t \<and> t < now e \<longrightarrow>
        redirectUrl e d req = ([Responded (Json 410 False ''Short URL has expired'' NoData)], d)
        \<and> redirectUrl2 e d req =
            ([Responded (Json 410 False ''This short URL has expired'' NoData)], d))
   \<and> (\<forall>u. findActive (db_urls d) (params_shortCode req) = Some u \<and> \<not> isExpired e u \<longrightarrow>
        responses (redirectUrl2 e d req) = [Redirect 301 (originalUrl u)]
        \<and> (if isBot (headers req ''user-agent'')
               \<or> (validClick (clickData e u req) \<and> \<not> write_fails e ClickCreate
                   \<and> 0 \<le> clicks u + 1 \<and> \<not> write_fails e UrlSave
                   \<and> (user u = None \<or> \<not> write_fails e UserUpdate))
            then responses (redirectUrl e d req) = [Redirect 301 (originalUrl u)]
            else responses (redirectUrl e d req) = []
                 \<and> (\<exists>err. last (fst (redirectUrl e d req)) = Thrown err)))"
proof (intro conjI allI impI)
  assume "\<forall>u\<in>set (db_urls d).
        (shortCode u = params_shortCode req \<or> customAlias u = Some (params_shortCode req))
        \<longrightarrow> \<not> isActive u"
  then have none: "findActive (db_urls d) (params_shortCode req) = None"
    by (simp add: findActive_None)
  then show "redirectUrl e d req = ([Responded (Json 404 False ''Short URL not found'' NoData)], d)"
    by (rule redirectUrl_not_found)
  from none show "redirectUrl2 e d req = ([Responded (Json 404 False ''Short URL not found'' NoData)], d)"
    by (rule redirectUrl2_not_found)
next
  fix u assume "findActive (db_urls d) (params_shortCode req) = Some u"
  then show "u \<in> set (db_urls d)" "isActive u"
    "shortCode u = params_shortCode req \<or> customAlias u = Some (params_shortCode req)"
    by (auto dest: findActive_Some)
next
  fix u t
  assume a: "findActive (db_urls d) (params_shortCode req) = Some u
          \<and> expiresAt u = Some t \<and> t < now e"
  then have x: "isExpired e u" by (simp add: isExpired_past)
  with a show "redirectUrl e d req = ([Responded (Json 410 False ''Short URL has expired'' NoData)], d)"
    by (simp add: redirectUrl_expired)
  from a x show "redirectUrl2 e d req =
            ([Responded (Json 410 False ''This short URL has expired'' NoData)], d)"
    by (simp add: redirectUrl2_expired)
next
  fix u
  assume a: "findActive (db_urls d) (params_shortCode req) = Some u \<and> \<not> isExpired e u"
  then show "responses (redirectUrl2 e d req) = [Redirect 301 (originalUrl u)]"
    by (simp add: redirectUrl2_valid)
  show "if isBot (headers req ''user-agent'')
               \<or> (validClick (clickData e u req) \<and> \<not> write_fails e ClickCreate
                   \<and> 0 \<le> clicks u + 1 \<and> \<not> write_fails e UrlSave
                   \<and> (user u = None \<or> \<not> write_fails e UserUpdate))
            then responses (redirectUrl e d req) = [Redirect 301 (originalUrl u)]
            else responses (redirectUrl e d req) = []
                 \<and> (\<exists>err. last (fst (redirectUrl e d req)) = Thrown err)"
  proof (cases "isBot (headers req ''user-agent'')")
    case True
    with a have "redirectUrl e d req = ([Responded (Redirect 301 (originalUrl u))], d)"
      by (simp add: redirectUrl_bot)
    with True show ?thesis by (simp add: responses_def)
  next
    case nb: False
    show ?thesis
    proof (cases "validClick (clickData e u req) \<and> \<not> write_fails e ClickCreate
                   \<and> 0 \<le> clicks u + 1 \<and> \<not> write_fails e UrlSave
                   \<and> (user u = None \<or> \<not> write_fails e UserUpdate)")
      case True
      with a nb have "responses (redirectUrl e d req) = [Redirect 301 (originalUrl u)]"
        by (intro redirectUrl_recorded) simp_all
      with True show ?thesis by simp
    next
      case False
      with a nb have "responses (redirectUrl e d req) = []
                 \<and> (\<exists>err. last (fst (redirectUrl e d req)) = Thrown err)"
        by (intro redirectUrl_rejected) simp_all
      with False nb show ?thesis by simp
    qed
  qed
qed

lemma ex_inactive: "findActive (db_urls db0) ''off789'' = None" by code_simp
lemma ex_expired: "findActive (db_urls db0) ''old456'' = Some ((link 8 ''old456'')\<lparr>expiresAt := Some 1600000000000\<rparr>)"
  by code_simp
lemma ex_valid: "findActive (db_urls db0) ''abc123'' = Some (link 7 ''abc123'')"
  by code_simp
lemma ex_valid_fresh: "\<not> isExpired e (link 7 ''abc123'')"
  by (simp add: isExpired_def link_def)

text \<open>The theorem at an inactive link, an expired link and a live link of \<open>db0\<close>.\<close>

theorem redirect_resolution_witness:
  "redirectUrl env0 db0 (request0 None ''off789'' 0 browserHeaders)
     = ([Responded (Json 404 False ''Short URL not found'' NoData)], db0)
   \<and> redirectUrl2 env0 db0 (request0 None ''old456'' 0 browserHeaders)
     = ([Responded (Json 410 False ''This short URL has expired'' NoData)], db0)
   \<and> responses (redirectUrl env0 db0 (request0 None ''abc123'' 0 browserHeaders))
     = [Redirect 301 ''https://example.com/page'']
   \<and> responses (redirectUrl2 env0 db0 (request0 None ''abc123'' 0 browserHeaders))
     = [Redirect 301 ''https://example.com/page'']"
proof -
  have p: "params_shortCode (request0 None c 0 browserHeaders) = c" for c
    by (simp add: request0_def)
  have h1: "\<forall>u\<in>set (db_urls db0). (shortCode u = ''off789'' \<or> customAlias u = Some ''off789'')
        \<longrightarrow> \<not> isActive u"
    using ex_inactive by (simp only: findActive_None)
  have h2: "expiresAt ((link 8 ''old456'')\<lparr>expiresAt := Some 1600000000000\<rparr>) = Some 1600000000000
      \<and> 1600000000000 < now env0"
    by (simp add: env0_def)
  have h3: "validClick (clickData env0 (link 7 ''abc123'') (request0 None ''abc123'' 0 browserHeaders))
      \<and> \<not> write_fails env0 ClickCreate \<and> 0 \<le> clicks (link 7 ''abc123'') + 1
      \<and> \<not> write_fails env0 UrlSave \<and> \<not> write_fails env0 UserUpdate"
    by code_simp
  have o: "originalUrl (link 7 ''abc123'') = ''https://example.com/page''"
    by (simp add: link_def)
  from redirect_resolution [of db0 "request0 None ''off789'' 0 browserHeaders" env0] h1
  have "redirectUrl env0 db0 (request0 None ''off789'' 0 browserHeaders)
     = ([Responded (Json 404 False ''Short URL not found'' NoData)], db0)"
    unfolding p by blast
  moreover
  from redirect_resolution [of db0 "request0 None ''old456'' 0 browserHeaders" env0] h2 ex_expired
  have "redirectUrl2 env0 db0 (request0 None ''old456'' 0 browserHeaders)
     = ([Responded (Json 410 False ''This short URL has expired'' NoData)], db0)"
    unfolding p by blast
  moreover
  from redirect_resolution [of db0 "request0 None ''abc123'' 0 browserHeaders" env0]
    ex_valid ex_valid_fresh [of env0] h3
  have "responses (redirectUrl env0 db0 (request0 None ''abc123'' 0 browserHeaders))
     = [Redirect 301 (originalUrl (link 7 ''abc123''))]
    \<and> responses (redirectUrl2 env0 db0 (request0 None ''abc123'' 0 browserHeaders))
     = [Redirect 301 (originalUrl (link 7 ''abc123''))]"
    unfolding p by presburger
  ultimately show ?thesis unfolding o by simp
qed

text \<open>
  Against C2 as stated: \<open>url.controller.js\<close> finds an active link that has not expired and
  sends no redirect, once because the database refuses the insert of the click, once
  because the request has no user-agent and the click schema refuses the click.
\<close>

theorem redirect_write_failure_counterexample:
  "findActive (db_urls db0) (params_shortCode (request0 None ''abc123'' 0 browserHeaders))
     = Some (link 7 ''abc123'')
   \<and> \<not> isExpired (failing ClickCreate) (link 7 ''abc123'')
   \<and> redirectUrl (failing ClickCreate) db0 (request0 None ''abc123'' 0 browserHeaders)
     = ([Thrown (WriteError ClickCreate)], db0)
   \<and> \<not> isExpired env0 (link 7 ''abc123'')
   \<and> responses (redirectUrl env0 db0 (request0 None ''abc123'' 0 noHeaders)) = []"
  by code_simp

section \<open>Click recording\<close>

lemma persisted_only: "ev \<in> set (persisted op r) \<Longrightarrow> ev = Persisted op"
  by (cases r) (simp_all add: persisted_def)

lemma trackClick_events:
  "ev \<in> set (fst (fst (trackClick e d u req))) \<Longrightarrow> \<exists>op. ev = Persisted op"
  by (auto simp: trackClick_def Let_def dest: persisted_only split: if_splits option.splits)

lemma trackClick_logged:
  "snd (fst (trackClick e d u req)) = None \<longleftrightarrow>
     isBot (headers req ''user-agent'')
     \<or> (validClick (clickData2 e u req) \<and> \<not> write_fails e ClickCreate
         \<and> 0 \<le> clicks u + 1 \<and> \<not> write_fails e UrlSave
         \<and> (user u = None \<or> \<not> write_fails e UserUpdate))"
  by (cases "user u")
    (auto simp: trackClick_def Let_def isBot_header failures_def Click_create_def
      incrementClicks_def incUser_def db_after_def split: list.splits)

lemma writes_then_final:
  "evs = map Persisted ws @ [f] \<Longrightarrow>
   f = Responded (Redirect 301 dest) \<or> (\<exists>err. f = Thrown err) \<Longrightarrow>
   \<exists>writes final. evs = map Persisted writes @ [final]
      \<and> (final = Responded (Redirect 301 dest) \<or> (\<exists>err. final = Thrown err))"
  by blast

lemma redirectUrl_writes_first:
  assumes "findActive (db_urls d) (params_shortCode req) = Some u" "\<not> isExpired e u"
  shows "\<exists>writes final. fst (redirectUrl e d req) = map Persisted writes @ [final]
           \<and> (final = Responded (Redirect 301 (originalUrl u)) \<or> (\<exists>err. final = Thrown err))"
proof (cases "isBot (Some (orElse (headers req ''user-agent'') []))")
  case True
  with assms have "fst (redirectUrl e d req) =
      map Persisted [] @ [Responded (Redirect 301 (originalUrl u))]"
    by (simp add: redirectUrl_def)
  then show ?thesis by (rule writes_then_final) simp
next
  case nb: False
  show ?thesis
  proof (cases "Click_create e d (clickData e u req)")
    case (Inl err)
    with assms nb have "fst (redirectUrl e d req) = map Persisted [] @ [Thrown err]"
      by (simp add: redirectUrl_def)
    then show ?thesis by (rule writes_then_final) simp
  next
    case c: (Inr d1)
    show ?thesis
    proof (cases "incrementClicks e d1 u")
      case (Inl err)
      with assms nb c have "fst (redirectUrl e d req) =
          map Persisted [ClickCreate] @ [Thrown err]"
        by (simp add: redirectUrl_def)
      then show ?thesis by (rule writes_then_final) simp
    next
      case i: (Inr d2)
      show ?thesis
      proof (cases "user u")
        case None
        with assms nb c i have "fst (redirectUrl e d req) =
            map Persisted [ClickCreate, UrlSave] @ [Responded (Redirect 301 (originalUrl u))]"
          by (simp add: redirectUrl_def)
        then show ?thesis by (rule writes_then_final) simp
      next
        case s: (Some uid)
        show ?thesis
        proof (cases "incUser e d2 uid 0 1")
          case (Inl err)
          with assms nb c i s have "fst (redirectUrl e d req) =
              map Persisted [ClickCreate, UrlSave] @ [Thrown err]"
            by (simp add: redirectUrl_def)
          then show ?thesis by (rule writes_then_final) simp
        next
          case (Inr d3)
          with assms nb c i s have "fst (redirectUrl e d req) =
              map Persisted [ClickCreate, UrlSave, UserUpdate]
                @ [Responded (Redirect 301 (originalUrl u))]"
            by (simp add: redirectUrl_def)
          then show ?thesis by (rule writes_then_final) simp
        qed
      qed
    qed
  qed
qed

text \<open>
  C3, as the code has it. For a redirect of an active link that has not expired, the
  refactored controller sends the 301 redirect first: every write of click recording comes
  after it in the trace, no error is thrown, and the failure of a write is logged (it is
  logged exactly when the request is not a bot's and a write fails). \<open>url.controller.js\<close>
  awaits its writes: they come before its last event, which is the redirect or the error
  with which the handler is rejected.
\<close>

theorem click_recording_decoupled:
  assumes "findActive (db_urls d) (params_shortCode req) = Some u" and "\<not> isExpired e u"
  shows
    "(\<exists>rest. fst (redirectUrl2 e d req) = Responded (Redirect 301 (originalUrl u)) # rest
        \<and> (\<forall>ev\<in>set rest. (\<exists>op. ev = Persisted op)
              \<or> (\<exists>err. ev = Logged ''Failed to track click:'' err))
        \<and> ((\<exists>err. Logged ''Failed to track click:'' err \<in> set rest) \<longleftrightarrow>
             \<not> (isBot (headers req ''user-agent'')
                \<or> (validClick (clickData2 e u req) \<and> \<not> write_fails e ClickCreate
                    \<and> 0 \<le> clicks u + 1 \<and> \<not> write_fails e UrlSave
                    \<and> (user u = None \<or> \<not> write_fails e UserUpdate)))))
     \<and> (\<exists>writes final. fst (redirectUrl e d req) = map Persisted writes @ [final]
           \<and> (final = Responded (Redirect 301 (originalUrl u)) \<or> (\<exists>err. final = Thrown err)))"
proof (intro conjI)
  let ?t = "trackClick e d u req"
  let ?log = "case snd (fst ?t) of None \<Rightarrow> []
              | Some err \<Rightarrow> [Logged ''Failed to track click:'' err]"
  let ?rest = "fst (fst ?t) @ ?log"
  have ev: "fst (redirectUrl2 e d req) = Responded (Redirect 301 (originalUrl u)) # ?rest"
    using assms by (simp add: redirectUrl2_def Let_def)
  have kinds: "\<forall>ev\<in>set ?rest. (\<exists>op. ev = Persisted op)
              \<or> (\<exists>err. ev = Logged ''Failed to track click:'' err)"
    by (auto dest: trackClick_events split: option.splits)
  have "(\<exists>err. Logged ''Failed to track click:'' err \<in> set ?rest) \<longleftrightarrow> snd (fst ?t) \<noteq> None"
  proof (cases "snd (fst ?t)")
    case None
    then show ?thesis by (auto dest: trackClick_events)
  next
    case (Some err)
    then show ?thesis by auto
  qed
  then have logged: "(\<exists>err. Logged ''Failed to track click:'' err \<in> set ?rest) \<longleftrightarrow>
             \<not> (isBot (headers req ''user-agent'')
                \<or> (validClick (clickData2 e u req) \<and> \<not> write_fails e ClickCreate
                    \<and> 0 \<le> clicks u + 1 \<and> \<not> write_fails e UrlSave
                    \<and> (user u = None \<or> \<not> write_fails e UserUpdate)))"
    by (simp only: trackClick_logged)
  from ev kinds logged
  show "\<exists>rest. fst (redirectUrl2 e d req) = Responded (Redirect 301 (originalUrl u)) # rest
        \<and> (\<forall>ev\<in>set rest. (\<exists>op. ev = Persisted op)
              \<or> (\<exists>err. ev = Logged ''Failed to track click:'' err))
        \<and> ((\<exists>err. Logged ''Failed to track click:'' err \<in> set rest) \<longleftrightarrow>
             \<not> (isBot (headers req ''user-agent'')
                \<or> (validClick (clickData2 e u req) \<and> \<not> write_fails e ClickCreate
                    \<and> 0 \<le> clicks u + 1 \<and> \<not> write_fails e UrlSave
                    \<and> (user u = None \<or> \<not> write_fails e UserUpdate))))"
    by blast
  from assms
  show "\<exists>writes final. fst (redirectUrl e d req) = map Persisted writes @ [final]
           \<and> (final = Responded (Redirect 301 (originalUrl u)) \<or> (\<exists>err. final = Thrown err))"
    by (rule redirectUrl_writes_first)
qed

text \<open>The theorem at a live link of \<open>db0\<close> when saving the link fails.\<close>

theorem click_recording_decoupled_witness:
  "(\<exists>rest. fst (redirectUrl2 (failing UrlSave) db0 (request0 None ''abc123'' 0 browserHeaders))
        = Responded (Redirect 301 ''https://example.com/page'') # rest
      \<and> (\<exists>err. Logged ''Failed to track click:'' err \<in> set rest))
   \<and> (\<exists>writes final.
        fst (redirectUrl (failing UrlSave) db0 (request0 None ''abc123'' 0 browserHeaders))
          = map Persisted writes @ [final])"
proof -
  let ?req = "request0 None ''abc123'' 0 browserHeaders"
  have p: "params_shortCode ?req = ''abc123''" by (simp add: request0_def)
  have o: "originalUrl (link 7 ''abc123'') = ''https://example.com/page''"
    by (simp add: link_def)
  have f: "write_fails (failing UrlSave) UrlSave" by (simp add: failing_def)
  have nb: "\<not> isBot (headers ?req ''user-agent'')" by code_simp
  from click_recording_decoupled [of db0 ?req "link 7 ''abc123''" "failing UrlSave"]
    ex_valid ex_valid_fresh [of "failing UrlSave"]
  have "(\<exists>rest. fst (redirectUrl2 (failing UrlSave) db0 ?req)
          = Responded (Redirect 301 (originalUrl (link 7 ''abc123''))) # rest
        \<and> ((\<exists>err. Logged ''Failed to track click:'' err \<in> set rest) \<longleftrightarrow>
             \<not> (isBot (headers ?req ''user-agent'')
                \<or> (validClick (clickData2 (failing UrlSave) (link 7 ''abc123'') ?req)
                    \<and> \<not> write_fails (failing UrlSave) ClickCreate
                    \<and> 0 \<le> clicks (link 7 ''abc123'') + 1
                    \<and> \<not> write_fails (failing UrlSave) UrlSave
                    \<and> (user (link 7 ''abc123'') = None
                        \<or> \<not> write_fails (failing UrlSave) UserUpdate)))))
     \<and> (\<exists>writes final. fst (redirectUrl (failing UrlSave) db0 ?req)
           = map Persisted writes @ [final])"
    unfolding p by blast
  with f nb show ?thesis unfolding o by blast
qed

text \<open>
  Against C3 as stated: in \<open>url.controller.js\<close> the failure of the counter increment
  surfaces, after the click was inserted, and no redirect is sent.
\<close>

theorem awaited_write_failure_counterexample:
  "findActive (db_urls db0) (params_shortCode (request0 None ''abc123'' 0 browserHeaders))
     = Some (link 7 ''abc123'')
   \<and> \<not> isExpired (failing UrlSave) (link 7 ''abc123'')
   \<and> fst (redirectUrl (failing UrlSave) db0 (request0 None ''abc123'' 0 browserHeaders))
     = [Persisted ClickCreate, Thrown (WriteError UrlSave)]
   \<and> length (db_clicks (snd (redirectUrl (failing UrlSave) db0
        (request0 None ''abc123'' 0 browserHeaders)))) = length (db_clicks db0) + 1"
  by code_simp

section \<open>Bot traffic and requests without a user-agent\<close>

text \<open>
  C5. A request whose user-agent satisfies \<open>isBot\<close> leaves the database as it was, in both
  controllers: no click is created, and the link's click counter, its last-clicked
  timestamp and the owner's click total are unchanged; when the code resolves to an active
  link that has not expired, the request receives the 301 redirect to the destination.
\<close>

theorem bot_traffic_not_recorded:
  assumes "isBot (headers req ''user-agent'')"
  shows "snd (redirectUrl e d req) = d \<and> snd (redirectUrl2 e d req) = d
    \<and> (\<forall>u. findActive (db_urls d) (params_shortCode req) = Some u \<and> \<not> isExpired e u \<longrightarrow>
          redirectUrl e d req = ([Responded (Redirect 301 (originalUrl u))], d)
          \<and> redirectUrl2 e d req = ([Responded (Redirect 301 (originalUrl u))], d))"
proof (intro conjI allI impI)
  show "snd (redirectUrl e d req) = d"
    using assms by (simp add: redirectUrl_def isBot_header split: option.splits)
  show "snd (redirectUrl2 e d req) = d"
    using assms by (simp add: redirectUrl2_def trackClick_bot split: option.splits)
next
  fix u assume "findActive (db_urls d) (params_shortCode req) = Some u \<and> \<not> isExpired e u"
  with assms show "redirectUrl e d req = ([Responded (Redirect 301 (originalUrl u))], d)"
    and "redirectUrl2 e d req = ([Responded (Redirect 301 (originalUrl u))], d)"
    by (simp_all add: redirectUrl_bot redirectUrl2_bot)
qed

text \<open>The theorem at a crawler's request for a live link of \<open>db0\<close>.\<close>

theorem bot_traffic_not_recorded_witness:
  "isBot (headers (request0 None ''abc123'' 0 botHeaders) ''user-agent'')
   \<and> redirectUrl env0 db0 (request0 None ''abc123'' 0 botHeaders)
       = ([Responded (Redirect 301 ''https://example.com/page'')], db0)
   \<and> redirectUrl2 env0 db0 (request0 None ''abc123'' 0 botHeaders)
       = ([Responded (Redirect 301 ''https://example.com/page'')], db0)"
proof -
  let ?req = "request0 None ''abc123'' 0 botHeaders"
  have p: "params_shortCode ?req = ''abc123''" by (simp add: request0_def)
  have o: "originalUrl (link 7 ''abc123'') = ''https://example.com/page''"
    by (simp add: link_def)
  have b: "isBot (headers ?req ''user-agent'')" by code_simp
  from bot_traffic_not_recorded [OF b, of env0 db0] ex_valid ex_valid_fresh [of env0]
  have "redirectUrl env0 db0 ?req = ([Responded (Redirect 301 (originalUrl (link 7 ''abc123'')))], db0)
    \<and> redirectUrl2 env0 db0 ?req = ([Responded (Redirect 301 (originalUrl (link 7 ''abc123'')))], db0)"
    unfolding p by blast
  with b show ?thesis by (simp add: o)
qed

lemma falsy_not_bot: "\<not> truthy h \<Longrightarrow> \<not> isBot h"
  by (simp add: isBot_def)

lemma falsy_click_invalid:
  "\<not> truthy (headers req ''user-agent'') \<Longrightarrow> \<not> validClick (clickData e u req)"
  by (cases "headers req ''user-agent''")
    (simp_all add: validClick_def clickData_def Let_def truthy_def orElse_def)

lemma falsy_click2_invalid:
  "\<not> truthy (headers req ''user-agent'') \<Longrightarrow> \<not> validClick (clickData2 e u req)"
  by (cases "headers req ''user-agent''")
    (simp_all add: validClick_def clickData2_def clickData_def Let_def truthy_def orElse_def)

lemma incrementClicks_clicks: "db_clicks (db_after d (incrementClicks e d u)) = db_clicks d"
  by (simp add: db_after_def incrementClicks_def)

lemma incUser_clicks: "db_clicks (db_after d (incUser e d uid m n)) = db_clicks d"
  by (simp add: db_after_def incUser_def)

lemma db_after_Inl: "db_after d (Inl err) = d"
  by (simp add: db_after_def)

lemma db_after_Inr: "db_after d (Inr d') = d'"
  by (simp add: db_after_def)

lemma trackClick_invalid_click:
  assumes "\<not> validClick (clickData2 e u req)"
  shows "db_clicks (snd (trackClick e d u req)) = db_clicks d"
proof (cases "isBot (Some (orElse (headers req ''user-agent'') []))")
  case True
  then show ?thesis by (simp add: trackClick_def)
next
  case False
  have r1: "Click_create e d (clickData2 e u req)
      = Inl (ValidationError ''Click validation failed'')"
    using assms by (simp add: Click_create_def)
  show ?thesis
  proof (cases "user u")
    case None
    with False show ?thesis
      by (simp add: trackClick_def Let_def r1 db_after_Inl db_after_Inr
          incrementClicks_clicks)
  next
    case (Some uid)
    with False show ?thesis
      by (simp add: trackClick_def Let_def r1 db_after_Inl incUser_clicks
          incrementClicks_clicks)
  qed
qed

text \<open>
  C9, checked on the code. \<open>isBot\<close> is false for a user-agent that is absent or empty, so
  the request goes on to click recording; but the click schema requires a user-agent that
  is not empty, so the insert is refused and no click is stored. \<open>url.controller.js\<close> then
  rejects the request without a redirect; the refactored controller redirects, logs the
  error and stores no click.
\<close>

theorem missing_user_agent_not_recorded:
  assumes "\<not> truthy (headers req ''user-agent'')"
  shows "\<not> isBot (headers req ''user-agent'') \<and> \<not> agent_isBot (headers req ''user-agent'')
    \<and> db_clicks (snd (redirectUrl e d req)) = db_clicks d
    \<and> db_clicks (snd (redirectUrl2 e d req)) = db_clicks d
    \<and> (\<forall>u. findActive (db_urls d) (params_shortCode req) = Some u \<and> \<not> isExpired e u \<longrightarrow>
          redirectUrl e d req = ([Thrown (ValidationError ''Click validation failed'')], d)
          \<and> (\<exists>rest. fst (redirectUrl2 e d req) =
                Responded (Redirect 301 (originalUrl u)) # rest
                \<and> Persisted ClickCreate \<notin> set rest
                \<and> Logged ''Failed to track click:''
                     (ValidationError ''Click validation failed'') \<in> set rest))"
proof (intro conjI allI impI)
  from assms show nb: "\<not> isBot (headers req ''user-agent'')" by (rule falsy_not_bot)
  from assms show "\<not> agent_isBot (headers req ''user-agent'')" by (simp add: agent_isBot_def)
  show "db_clicks (snd (redirectUrl e d req)) = db_clicks d"
    using assms nb
    by (simp add: redirectUrl_def isBot_header Click_create_def falsy_click_invalid
        split: option.splits)
  show "db_clicks (snd (redirectUrl2 e d req)) = db_clicks d"
    using assms
    by (simp add: redirectUrl2_def Let_def falsy_click2_invalid trackClick_invalid_click
        split: option.splits)
next
  fix u assume a: "findActive (db_urls d) (params_shortCode req) = Some u \<and> \<not> isExpired e u"
  from assms have nb: "\<not> isBot (headers req ''user-agent'')" by (rule falsy_not_bot)
  from a assms nb
  show "redirectUrl e d req = ([Thrown (ValidationError ''Click validation failed'')], d)"
    by (simp add: redirectUrl_def isBot_header Click_create_def falsy_click_invalid)
  let ?t = "trackClick e d u req"
  have r1: "Click_create e d (clickData2 e u req)
      = Inl (ValidationError ''Click validation failed'')"
    using assms by (simp add: Click_create_def falsy_click2_invalid)
  have evs: "Persisted ClickCreate \<notin> set (fst (fst ?t))"
    using nb r1
    by (cases "incrementClicks e d u"; cases "user u")
      (auto simp: trackClick_def Let_def isBot_header persisted_def db_after_def
        split: sum.splits)
  have err: "snd (fst ?t) = Some (ValidationError ''Click validation failed'')"
    using nb r1 by (simp add: trackClick_def Let_def isBot_header failures_def)
  have "fst (redirectUrl2 e d req) = Responded (Redirect 301 (originalUrl u)) #
      (fst (fst ?t) @ [Logged ''Failed to track click:''
          (ValidationError ''Click validation failed'')])"
    using a err by (simp add: redirectUrl2_def Let_def)
  with evs
  show "\<exists>rest. fst (redirectUrl2 e d req) = Responded (Redirect 301 (originalUrl u)) # rest
                \<and> Persisted ClickCreate \<notin> set rest
                \<and> Logged ''Failed to track click:''
                     (ValidationError ''Click validation failed'') \<in> set rest"
    by auto
qed

text \<open>The theorem at a request without headers for a live link of \<open>db0\<close>: the owner's total
  is incremented by the refactored controller although no click is stored.\<close>

theorem missing_user_agent_not_recorded_witness:
  "\<not> truthy (headers (request0 None ''abc123'' 0 noHeaders) ''user-agent'')
   \<and> \<not> isBot None \<and> \<not> isBot (Some []) \<and> \<not> agent_isBot None \<and> \<not> agent_isBot (Some [])
   \<and> redirectUrl env0 db0 (request0 None ''abc123'' 0 noHeaders)
       = ([Thrown (ValidationError ''Click validation failed'')], db0)
   \<and> db_clicks (snd (redirectUrl2 env0 db0 (request0 None ''abc123'' 0 noHeaders)))
       = db_clicks db0
   \<and> db_users (snd (redirectUrl2 env0 db0 (request0 None ''abc123'' 0 noHeaders)))
       = [owner1\<lparr>totalClicks := 51\<rparr>]"
proof -
  let ?req = "request0 None ''abc123'' 0 noHeaders"
  have p: "params_shortCode ?req = ''abc123''" by (simp add: request0_def)
  have h: "\<not> truthy (headers ?req ''user-agent'')"
    by (simp add: request0_def noHeaders_def truthy_def)
  have b: "\<not> isBot None \<and> \<not> isBot (Some []) \<and> \<not> agent_isBot None \<and> \<not> agent_isBot (Some [])"
    by (simp add: isBot_def agent_isBot_def truthy_def)
  have u: "db_users (snd (redirectUrl2 env0 db0 ?req)) = [owner1\<lparr>totalClicks := 51\<rparr>]"
    by code_simp
  from missing_user_agent_not_recorded [OF h, of env0 db0] ex_valid ex_valid_fresh [of env0]
  have "redirectUrl env0 db0 ?req = ([Thrown (ValidationError ''Click validation failed'')], db0)
    \<and> db_clicks (snd (redirectUrl2 env0 db0 ?req)) = db_clicks db0"
    unfolding p by blast
  with h b u show ?thesis by simp
qed

section \<open>Deleting a link\<close>

lemma find_updateFirst:
  assumes "find P xs = Some a" "P (f a)"
  shows "find P (updateFirst P f xs) = Some (f a)"
  using assms by (induction xs) (auto split: if_splits)

lemma find_updateFirst_None:
  "find P xs = None \<Longrightarrow> updateFirst P f xs = xs"
  by (induction xs) (auto split: if_splits)

lemma deleteUrl_success:
  assumes "req_user req = Some uid" "findUrlForUser (db_urls d) (params_id req) uid = Some u"
    and "\<not> write_fails e ClickDeleteMany" "\<not> write_fails e UrlDelete"
    and "\<not> write_fails e UserUpdate"
  shows "deleteUrl e d req =
      ([Persisted ClickDeleteMany, Persisted UrlDelete, Persisted UserUpdate,
        Responded (Json 200 True ''URL deleted successfully'' NoData)], afterDelete d u uid)"
  using assms
  by (simp add: deleteUrl_def Click_deleteMany_def Url_findByIdAndDelete_def incUser_def
      afterDelete_def)

lemma deleteUrl2_success:
  assumes "req_user req = Some uid" "findUrlForUser (db_urls d) (params_id req) uid = Some u"
    and "\<not> write_fails e ClickDeleteMany" "\<not> write_fails e UrlDelete"
    and "\<not> write_fails e UserUpdate"
  shows "deleteUrl2 e d req =
      ([Persisted ClickDeleteMany, Persisted UrlDelete, Persisted UserUpdate,
        Responded (Json 200 True ''URL and associated data deleted'' NoData)],
       afterDelete d u uid)"
  using assms
  by (simp add: deleteUrl2_def Click_deleteMany_def Url_findByIdAndDelete_def incUser_def
      afterDelete_def Let_def db_after_def persisted_def failures_def)

lemma deleteUrl_failure:
  assumes "req_user req = Some uid" "findUrlForUser (db_urls d) (params_id req) uid = Some u"
    and "write_fails e ClickDeleteMany \<or> write_fails e UrlDelete \<or> write_fails e UserUpdate"
  shows "responses (deleteUrl e d req) = []"
  using assms
  by (auto simp: deleteUrl_def Click_deleteMany_def Url_findByIdAndDelete_def incUser_def
      responses_def)

lemma deleteUrl2_failure:
  assumes "req_user req = Some uid" "findUrlForUser (db_urls d) (params_id req) uid = Some u"
    and "write_fails e ClickDeleteMany \<or> write_fails e UrlDelete \<or> write_fails e UserUpdate"
  shows "responses (deleteUrl2 e d req) = []"
proof -
  have "failures [Click_deleteMany e d (url_id u),
      Url_findByIdAndDelete e (db_after d (Click_deleteMany e d (url_id u))) (url_id u),
      incUser e (db_after (db_after d (Click_deleteMany e d (url_id u)))
        (Url_findByIdAndDelete e (db_after d (Click_deleteMany e d (url_id u))) (url_id u)))
        uid (- 1) (- clicks u)] \<noteq> []"
    using assms(3)
    by (auto simp: failures_def Click_deleteMany_def Url_findByIdAndDelete_def incUser_def)
  then show ?thesis
    using assms(1,2)
    by (auto simp: deleteUrl2_def Let_def responses_def persisted_def
        split: list.splits sum.splits)
qed

text \<open>The state that a deletion leaves when a write fails.\<close>

lemma deleteUrl_state:
  assumes "req_user req = Some uid" "findUrlForUser (db_urls d) (params_id req) uid = Some u"
    and "write_fails e ClickDeleteMany \<or> write_fails e UrlDelete \<or> write_fails e UserUpdate"
  shows "snd (deleteUrl e d req) =
           (if write_fails e ClickDeleteMany then d
            else if write_fails e UrlDelete
              then d\<lparr>db_clicks := filter (\<lambda>c. click_url c \<noteq> url_id u) (db_clicks d)\<rparr>
            else d\<lparr>db_clicks := filter (\<lambda>c. click_url c \<noteq> url_id u) (db_clicks d),
                   db_urls := removeFirst (\<lambda>v. url_id v = url_id u) (db_urls d)\<rparr>)"
    and "\<exists>err. last (fst (deleteUrl e d req)) = Thrown err"
  using assms
  by (auto simp: deleteUrl_def Click_deleteMany_def Url_findByIdAndDelete_def incUser_def)

lemma deleteUrl2_state:
  assumes "req_user req = Some uid" "findUrlForUser (db_urls d) (params_id req) uid = Some u"
  shows "snd (deleteUrl2 e d req) =
           d\<lparr>db_clicks :=
                (if write_fails e ClickDeleteMany then db_clicks d
                 else filter (\<lambda>c. click_url c \<noteq> url_id u) (db_clicks d)),
              db_urls :=
                (if write_fails e UrlDelete then db_urls d
                 else removeFirst (\<lambda>v. url_id v = url_id u) (db_urls d)),
              db_users :=
                (if write_fails e UserUpdate then db_users d
                 else updateFirst (\<lambda>a. account_id a = uid)
                        (\<lambda>a. a\<lparr>urlsCount := urlsCount a - 1,
                                totalClicks := totalClicks a - clicks u\<rparr>)
                        (db_users d))\<rparr>"
  using assms
  by (simp add: deleteUrl2_def Click_deleteMany_def Url_findByIdAndDelete_def incUser_def
      Let_def db_after_def)

lemma deleteUrl2_thrown:
  assumes "req_user req = Some uid" "findUrlForUser (db_urls d) (params_id req) uid = Some u"
    and "write_fails e ClickDeleteMany \<or> write_fails e UrlDelete \<or> write_fails e UserUpdate"
  shows "\<exists>err. last (fst (deleteUrl2 e d req)) = Thrown err"
proof -
  have "failures [Click_deleteMany e d (url_id u),
      Url_findByIdAndDelete e (db_after d (Click_deleteMany e d (url_id u))) (url_id u),
      incUser e (db_after (db_after d (Click_deleteMany e d (url_id u)))
        (Url_findByIdAndDelete e (db_after d (Click_deleteMany e d (url_id u))) (url_id u)))
        uid (- 1) (- clicks u)] \<noteq> []"
    using assms(3)
    by (auto simp: failures_def Click_deleteMany_def Url_findByIdAndDelete_def incUser_def)
  then show ?thesis
    using assms(1,2)
    by (auto simp: deleteUrl2_def Let_def split: list.splits)
qed

text \<open>
  C4, as the code has it. When its owner deletes a link and the three writes succeed, both
  controllers answer 200 and reach the same state: every click that references the link is
  removed and no other, the link is removed, and the owner's link count is decremented by 1
  and the owner's click total by the link's click count. The writes are not part of a
  transaction. When one of them fails, the handler is rejected and sends no response, and
  the state keeps every write that succeeded: in \<open>url.controller.js\<close> the writes that come
  before the first that fails (the clicks are removed when the removal of the link fails,
  the clicks and the link when the update of the owner fails), in the refactored
  controller every write that does not fail itself.
\<close>

theorem deleteUrl_cascade:
  assumes "req_user req = Some uid"
    and "findUrlForUser (db_urls d) (params_id req) uid = Some u"
  shows
    "(\<not> write_fails e ClickDeleteMany \<and> \<not> write_fails e UrlDelete \<and> \<not> write_fails e UserUpdate
       \<longrightarrow>
       responses (deleteUrl e d req) = [Json 200 True ''URL deleted successfully'' NoData]
       \<and> responses (deleteUrl2 e d req)
           = [Json 200 True ''URL and associated data deleted'' NoData]
       \<and> snd (deleteUrl2 e d req) = snd (deleteUrl e d req)
       \<and> db_clicks (snd (deleteUrl e d req))
           = filter (\<lambda>c. click_url c \<noteq> url_id u) (db_clicks d)
       \<and> db_urls (snd (deleteUrl e d req))
           = removeFirst (\<lambda>v. url_id v = url_id u) (db_urls d)
       \<and> (\<forall>a. find (\<lambda>a. account_id a = uid) (db_users d) = Some a \<longrightarrow>
             find (\<lambda>a. account_id a = uid) (db_users (snd (deleteUrl e d req)))
               = Some (a\<lparr>urlsCount := urlsCount a - 1,
                         totalClicks := totalClicks a - clicks u\<rparr>)))
     \<and> (write_fails e ClickDeleteMany \<or> write_fails e UrlDelete \<or> write_fails e UserUpdate
       \<longrightarrow>
       responses (deleteUrl e d req) = [] \<and> responses (deleteUrl2 e d req) = []
       \<and> (\<exists>err. last (fst (deleteUrl e d req)) = Thrown err)
       \<and> (\<exists>err. last (fst (deleteUrl2 e d req)) = Thrown err)
       \<and> snd (deleteUrl e d req) =
           (if write_fails e ClickDeleteMany then d
            else if write_fails e UrlDelete
              then d\<lparr>db_clicks := filter (\<lambda>c. click_url c \<noteq> url_id u) (db_clicks d)\<rparr>
            else d\<lparr>db_clicks := filter (\<lambda>c. click_url c \<noteq> url_id u) (db_clicks d),
                   db_urls := removeFirst (\<lambda>v. url_id v = url_id u) (db_urls d)\<rparr>)
       \<and> snd (deleteUrl2 e d req) =
           d\<lparr>db_clicks :=
                (if write_fails e ClickDeleteMany then db_clicks d
                 else filter (\<lambda>c. click_url c \<noteq> url_id u) (db_clicks d)),
              db_urls :=
                (if write_fails e UrlDelete then db_urls d
                 else removeFirst (\<lambda>v. url_id v = url_id u) (db_urls d)),
              db_users :=
                (if write_fails e UserUpdate then db_users d
                 else updateFirst (\<lambda>a. account_id a = uid)
                        (\<lambda>a. a\<lparr>urlsCount := urlsCount a - 1,
                                totalClicks := totalClicks a - clicks u\<rparr>)
                        (db_users d))\<rparr>)"
proof (intro conjI impI)
  assume ok: "\<not> write_fails e ClickDeleteMany \<and> \<not> write_fails e UrlDelete
      \<and> \<not> write_fails e UserUpdate"
  with assms have a: "deleteUrl e d req =
      ([Persisted ClickDeleteMany, Persisted UrlDelete, Persisted UserUpdate,
        Responded (Json 200 True ''URL deleted successfully'' NoData)], afterDelete d u uid)"
    by (intro deleteUrl_success) simp_all
  from ok assms have b: "deleteUrl2 e d req =
      ([Persisted ClickDeleteMany, Persisted UrlDelete, Persisted UserUpdate,
        Responded (Json 200 True ''URL and associated data deleted'' NoData)],
       afterDelete d u uid)"
    by (intro deleteUrl2_success) simp_all
  show "responses (deleteUrl e d req) = [Json 200 True ''URL deleted successfully'' NoData]"
    by (simp add: a responses_def)
  show "responses (deleteUrl2 e d req)
           = [Json 200 True ''URL and associated data deleted'' NoData]"
    by (simp add: b responses_def)
  show "snd (deleteUrl2 e d req) = snd (deleteUrl e d req)" by (simp add: a b)
  show "db_clicks (snd (deleteUrl e d req))
           = filter (\<lambda>c. click_url c \<noteq> url_id u) (db_clicks d)"
    by (simp add: a afterDelete_def)
  show "db_urls (snd (deleteUrl e d req))
           = removeFirst (\<lambda>v. url_id v = url_id u) (db_urls d)"
    by (simp add: a afterDelete_def)
  show "\<forall>a. find (\<lambda>a. account_id a = uid) (db_users d) = Some a \<longrightarrow>
             find (\<lambda>a. account_id a = uid) (db_users (snd (deleteUrl e d req)))
               = Some (a\<lparr>urlsCount := urlsCount a - 1,
                         totalClicks := totalClicks a - clicks u\<rparr>)"
  proof (intro allI impI)
    fix acc assume f: "find (\<lambda>a. account_id a = uid) (db_users d) = Some acc"
    then have "account_id acc = uid" by (auto simp: find_Some_iff)
    with f show "find (\<lambda>a. account_id a = uid) (db_users (snd (deleteUrl e d req)))
               = Some (acc\<lparr>urlsCount := urlsCount acc - 1,
                         totalClicks := totalClicks acc - clicks u\<rparr>)"
      by (simp add: a afterDelete_def find_updateFirst)
  qed
next
  assume f: "write_fails e ClickDeleteMany \<or> write_fails e UrlDelete \<or> write_fails e UserUpdate"
  with assms show "responses (deleteUrl e d req) = []" "responses (deleteUrl2 e d req) = []"
    by (simp_all add: deleteUrl_failure deleteUrl2_failure)
  from assms f show "\<exists>err. last (fst (deleteUrl e d req)) = Thrown err"
    by (rule deleteUrl_state(2))
  from assms f show "\<exists>err. last (fst (deleteUrl2 e d req)) = Thrown err"
    by (rule deleteUrl2_thrown)
  from assms f show "snd (deleteUrl e d req) =
           (if write_fails e ClickDeleteMany then d
            else if write_fails e UrlDelete
              then d\<lparr>db_clicks := filter (\<lambda>c. click_url c \<noteq> url_id u) (db_clicks d)\<rparr>
            else d\<lparr>db_clicks := filter (\<lambda>c. click_url c \<noteq> url_id u) (db_clicks d),
                   db_urls := removeFirst (\<lambda>v. url_id v = url_id u) (db_urls d)\<rparr>)"
    by (rule deleteUrl_state(1))
  from assms show "snd (deleteUrl2 e d req) =
           d\<lparr>db_clicks :=
                (if write_fails e ClickDeleteMany then db_clicks d
                 else filter (\<lambda>c. click_url c \<noteq> url_id u) (db_clicks d)),
              db_urls :=
                (if write_fails e UrlDelete then db_urls d
                 else removeFirst (\<lambda>v. url_id v = url_id u) (db_urls d)),
              db_users :=
                (if write_fails e UserUpdate then db_users d
                 else updateFirst (\<lambda>a. account_id a = uid)
                        (\<lambda>a. a\<lparr>urlsCount := urlsCount a - 1,
                                totalClicks := totalClicks a - clicks u\<rparr>)
                        (db_users d))\<rparr>"
    by (rule deleteUrl2_state)
qed

lemma ex_owned: "findUrlForUser (db_urls db0) 7 1 = Some (link 7 ''abc123'')"
  by code_simp

text \<open>The theorem at the link of \<open>db0\<close> with 42 clicks: the owner's total goes from 50 to
  8.\<close>

theorem deleteUrl_cascade_witness:
  "clicks (link 7 ''abc123'') = 42
   \<and> find (\<lambda>a. account_id a = 1) (db_users db0) = Some owner1
   \<and> find (\<lambda>a. account_id a = 1)
        (db_users (snd (deleteUrl env0 db0 (request0 (Some 1) [] 7 browserHeaders))))
       = Some (owner1\<lparr>urlsCount := 2, totalClicks := 8\<rparr>)
   \<and> db_clicks (snd (deleteUrl2 env0 db0 (request0 (Some 1) [] 7 browserHeaders)))
       = [click0 8 (Some ''DE'') 1699990000000]"
proof -
  let ?req = "request0 (Some 1) [] 7 browserHeaders"
  have r: "req_user ?req = Some 1" "params_id ?req = 7" by (simp_all add: request0_def)
  have w: "\<not> write_fails env0 ClickDeleteMany \<and> \<not> write_fails env0 UrlDelete
      \<and> \<not> write_fails env0 UserUpdate"
    by (simp add: env0_def)
  have o: "find (\<lambda>a. account_id a = 1) (db_users db0) = Some owner1"
    by (simp add: db0_def owner1_def)
  have c: "clicks (link 7 ''abc123'') = 42" "url_id (link 7 ''abc123'') = 7"
    by (simp_all add: link_def)
  have f: "filter (\<lambda>c. click_url c \<noteq> 7) (db_clicks db0) = [click0 8 (Some ''DE'') 1699990000000]"
    by (simp add: db0_def click0_def)
  have v: "owner1\<lparr>urlsCount := urlsCount owner1 - 1, totalClicks := totalClicks owner1 - 42\<rparr>
      = owner1\<lparr>urlsCount := 2, totalClicks := 8\<rparr>"
    by (simp add: owner1_def)
  from deleteUrl_cascade [of ?req 1 db0 "link 7 ''abc123''" env0] r ex_owned w o
  have "find (\<lambda>a. account_id a = 1) (db_users (snd (deleteUrl env0 db0 ?req)))
       = Some (owner1\<lparr>urlsCount := urlsCount owner1 - 1,
                     totalClicks := totalClicks owner1 - clicks (link 7 ''abc123'')\<rparr>)
    \<and> db_clicks (snd (deleteUrl2 env0 db0 ?req))
       = filter (\<lambda>c. click_url c \<noteq> url_id (link 7 ''abc123'')) (db_clicks db0)"
    by simp
  then show ?thesis using o by (simp add: c f v)
qed

text \<open>
  Against C4 as stated: when the removal of the link fails, \<open>url.controller.js\<close> has
  removed its clicks already, and the refactored controller has removed its clicks and
  decremented the owner's counters, while the link is still stored.
\<close>

theorem deleteUrl_partial_counterexample:
  "findUrlForUser (db_urls db0) (params_id (request0 (Some 1) [] 7 browserHeaders)) 1
     = Some (link 7 ''abc123'')
   \<and> snd (deleteUrl (failing UrlDelete) db0 (request0 (Some 1) [] 7 browserHeaders))
     = db0\<lparr>db_clicks := [click0 8 (Some ''DE'') 1699990000000]\<rparr>
   \<and> snd (deleteUrl2 (failing UrlDelete) db0 (request0 (Some 1) [] 7 browserHeaders))
     = db0\<lparr>db_clicks := [click0 8 (Some ''DE'') 1699990000000],
           db_users := [owner1\<lparr>urlsCount := 2, totalClicks := 8\<rparr>]\<rparr>"
  by code_simp

section \<open>Creating a link\<close>

lemma find_exists:
  assumes "x \<in> set xs" "P x"
  shows "\<exists>y\<in>set xs. P y \<and> find P xs = Some y"
proof (cases "find P xs")
  case None
  with assms show ?thesis by (auto simp: find_None_iff)
next
  case (Some y)
  then show ?thesis by (auto simp: find_Some_iff)
qed

lemma createShortUrl2_existing:
  assumes "req_user req = Some uid" "truthy (body_originalUrl (body req))"
    and "isValidUrl e (normalizeUrl (trim (orElse (body_originalUrl (body req)) [])))"
    and "find (\<lambda>u. originalUrl u = normalizeUrl (trim (orElse (body_originalUrl (body req)) []))
            \<and> user u = Some uid) (db_urls d) = Some y"
  shows "createShortUrl2 e d req =
           ([Responded (Json 200 True ''URL already shortened'' (UrlData y))], d)"
  using assms by (simp add: createShortUrl2_def Let_def)

lemma createShortUrl_existing:
  assumes "req_user req = Some uid" "truthy (body_originalUrl (body req))"
    and "isValidUrl e (normalizeUrl (trim (orElse (body_originalUrl (body req)) [])))"
    and "find (\<lambda>u. originalUrl u = normalizeUrl (trim (orElse (body_originalUrl (body req)) []))
            \<and> user u = Some uid) (db_urls d) = Some y"
    and "\<not> truthy (body_customAlias (body req))
         \<or> validateCustomAlias (db_urls d) (trim (orElse (body_customAlias (body req)) []))
             = Inr True"
  shows "createShortUrl e d req =
           ([Responded (Json 200 True ''URL already shortened'' (UrlData y))], d)"
  using assms by (auto simp: createShortUrl_def Let_def)

lemma Url_create_appends:
  "Url_create e d x = Inr (u, d1) \<Longrightarrow> db_urls d1 = db_urls d @ [u]"
  by (auto simp: Url_create_def Let_def split: if_splits)

lemma created_400: "created d out (Json 400 False m NoData)"
  by (simp add: created_def)

lemma store_anonymous:
  assumes "req_user req = None" "r \<in> set (responses (createShortUrl_store e d req n code))"
  shows "created d (createShortUrl_store e d req n code) r"
proof (cases "case body_expiresAt (body req) of None \<Rightarrow> False | Some t \<Rightarrow> t \<le> now e")
  case True
  with assms show ?thesis
    by (simp add: createShortUrl_store_def Let_def responses_def created_400)
next
  case False
  let ?data = "\<lparr>url_id = newObjectId e, originalUrl = n, shortCode = code,
            customAlias =
              (if truthy (body_customAlias (body req))
               then Some (trim (orElse (body_customAlias (body req)) [])) else None),
            user = req_user req,
            title =
              Some (if truthy (body_title (body req)) then trim (orElse (body_title (body req)) [])
                    else extractDomain e n),
            description =
              (if truthy (body_description (body req))
               then Some (trim (orElse (body_description (body req)) [])) else None),
            clicks = 0, isActive = True, expiresAt = body_expiresAt (body req),
            tags = cleanTags (body_tags (body req)), lastClickedAt = None,
            createdAt = now e, updatedAt = now e\<rparr>"
  show ?thesis
  proof (cases "Url_create e d ?data")
    case (Inl err)
    with assms False show ?thesis
      by (simp add: createShortUrl_store_def Let_def responses_def)
  next
    case (Inr p)
    obtain u d1 where p: "p = (u, d1)" by (cases p)
    with Inr have "db_urls d1 = db_urls d @ [u]" by (auto dest: Url_create_appends)
    with assms False Inr p show ?thesis
      by (simp add: createShortUrl_store_def Let_def responses_def created_def)
  qed
qed

lemma store2_anonymous:
  assumes "req_user req = None" "r \<in> set (responses (createShortUrl2_store e d req n code))"
  shows "created d (createShortUrl2_store e d req n code) r"
proof (cases "case body_expiresAt (body req) of None \<Rightarrow> False | Some t \<Rightarrow> t \<le> now e")
  case True
  with assms show ?thesis
    by (simp add: createShortUrl2_store_def Let_def responses_def created_400)
next
  case False
  let ?data = "\<lparr>url_id = newObjectId e, originalUrl = n, shortCode = code,
            customAlias = (if truthy (body_customAlias (body req)) then Some code else None),
            user = req_user req,
            title =
              Some (orElse (map_option trim (body_title (body req))) (extractDomain e n)),
            description = map_option trim (body_description (body req)),
            clicks = 0, isActive = True, expiresAt = body_expiresAt (body req),
            tags = cleanTags (body_tags (body req)), lastClickedAt = None,
            createdAt = now e, updatedAt = now e\<rparr>"
  show ?thesis
  proof (cases "Url_create e d ?data")
    case (Inl err)
    with assms False show ?thesis
      by (simp add: createShortUrl2_store_def Let_def responses_def)
  next
    case (Inr p)
    obtain u d1 where p: "p = (u, d1)" by (cases p)
    with Inr have "db_urls d1 = db_urls d @ [u]" by (auto dest: Url_create_appends)
    with assms False Inr p show ?thesis
      by (simp add: createShortUrl2_store_def Let_def responses_def created_def)
  qed
qed

lemma responses_single: "responses ([Responded r], d) = [r]"
  by (simp add: responses_def)

lemma responses_thrown: "responses ([Thrown err], d) = []"
  by (simp add: responses_def)

lemma createShortUrl_shape:
  assumes "req_user req = None"
  shows "(\<exists>m. createShortUrl e d req = ([Responded (Json 400 False m NoData)], d))
    \<or> (\<exists>err. createShortUrl e d req = ([Thrown err], d))
    \<or> (\<exists>code. createShortUrl e d req =
          createShortUrl_store e d req (normalizeUrl (trim (orElse (body_originalUrl (body req)) []))) code)"
proof (cases "truthy (body_originalUrl (body req))
    \<and> isValidUrl e (normalizeUrl (trim (orElse (body_originalUrl (body req)) [])))")
  case False
  then show ?thesis by (auto simp: createShortUrl_def Let_def)
next
  case ok: True
  show ?thesis
  proof (cases "truthy (body_customAlias (body req))")
    case al: True
    show ?thesis
    proof (cases "validateCustomAlias (db_urls d) (trim (orElse (body_customAlias (body req)) []))")
      case (Inl err)
      with ok al assms show ?thesis by (auto simp: createShortUrl_def Let_def)
    next
      case (Inr b)
      with ok al assms show ?thesis by (auto simp: createShortUrl_def Let_def)
    qed
  next
    case al: False
    show ?thesis
    proof (cases "generateShortCode e (db_urls d) 6")
      case (Inl err)
      with ok al assms show ?thesis by (auto simp: createShortUrl_def Let_def)
    next
      case (Inr code)
      with ok al assms show ?thesis by (auto simp: createShortUrl_def Let_def)
    qed
  qed
qed

lemma createShortUrl2_shape:
  assumes "req_user req = None"
  shows "(\<exists>m. createShortUrl2 e d req = ([Responded (Json 400 False m NoData)], d))
    \<or> (\<exists>err. createShortUrl2 e d req = ([Thrown err], d))
    \<or> (\<exists>code. createShortUrl2 e d req =
          createShortUrl2_store e d req (normalizeUrl (trim (orElse (body_originalUrl (body req)) []))) code)"
proof (cases "truthy (body_originalUrl (body req))
    \<and> isValidUrl e (normalizeUrl (trim (orElse (body_originalUrl (body req)) [])))")
  case False
  then show ?thesis by (auto simp: createShortUrl2_def Let_def)
next
  case ok: True
  show ?thesis
  proof (cases "truthy (body_customAlias (body req))")
    case al: True
    show ?thesis
    proof (cases "validateCustomAlias (db_urls d) (trim (orElse (body_customAlias (body req)) []))")
      case (Inl err)
      with ok al assms show ?thesis by (auto simp: createShortUrl2_def Let_def)
    next
      case (Inr b)
      with ok al assms show ?thesis by (auto simp: createShortUrl2_def Let_def)
    qed
  next
    case al: False
    show ?thesis
    proof (cases "generateShortCode e (db_urls d) 6")
      case (Inl err)
      with ok al assms show ?thesis by (auto simp: createShortUrl2_def Let_def)
    next
      case (Inr code)
      with ok al assms show ?thesis by (auto simp: createShortUrl2_def Let_def)
    qed
  qed
qed

lemma createShortUrl_anonymous:
  assumes "req_user req = None" "r \<in> set (responses (createShortUrl e d req))"
  shows "created d (createShortUrl e d req) r"
  using createShortUrl_shape [OF assms(1), of e d] assms
  by (auto simp: responses_single responses_thrown created_400 store_anonymous)

lemma createShortUrl2_anonymous:
  assumes "req_user req = None" "r \<in> set (responses (createShortUrl2 e d req))"
  shows "created d (createShortUrl2 e d req) r"
  using createShortUrl2_shape [OF assms(1), of e d] assms
  by (auto simp: responses_single responses_thrown created_400 store2_anonymous)

text \<open>
  C6, as the code has it. An authenticated request whose destination is valid and, once
  normalised, is the stored destination of a link of the same user is answered 200 with
  such a link, and the database is unchanged (no link is created, no code is drawn): by
  the refactored controller always, by \<open>url.controller.js\<close> when the request has no custom
  alias or its alias passes validation, which that controller runs first. An anonymous
  request is never answered with an existing link: each of its responses is a refusal
  (400) or carries the link that the request has added to the registry.
\<close>

theorem create_returns_existing_link:
  "(req_user req = Some uid \<and> truthy (body_originalUrl (body req))
      \<and> isValidUrl e (normalizeUrl (trim (orElse (body_originalUrl (body req)) [])))
      \<and> x \<in> set (db_urls d)
      \<and> originalUrl x = normalizeUrl (trim (orElse (body_originalUrl (body req)) []))
      \<and> user x = Some uid
    \<longrightarrow> (\<exists>y\<in>set (db_urls d).
           originalUrl y = normalizeUrl (trim (orElse (body_originalUrl (body req)) []))
           \<and> user y = Some uid
           \<and> createShortUrl2 e d req
               = ([Responded (Json 200 True ''URL already shortened'' (UrlData y))], d)
           \<and> (\<not> truthy (body_customAlias (body req))
                \<or> validateCustomAlias (db_urls d)
                     (trim (orElse (body_customAlias (body req)) [])) = Inr True
               \<longrightarrow> createShortUrl e d req
                     = ([Responded (Json 200 True ''URL already shortened'' (UrlData y))], d))))
   \<and> (req_user req = None \<longrightarrow>
        (\<forall>r\<in>set (responses (createShortUrl e d req)).
            (\<exists>m. r = Json 400 False m NoData)
            \<or> (\<exists>u q. r = Json 201 True ''Short URL created successfully'' (UrlWithQr u q)
                  \<and> db_urls (snd (createShortUrl e d req)) = db_urls d @ [u]))
        \<and> (\<forall>r\<in>set (responses (createShortUrl2 e d req)).
            (\<exists>m. r = Json 400 False m NoData)
            \<or> (\<exists>u q. r = Json 201 True ''Short URL created successfully'' (UrlWithQr u q)
                  \<and> db_urls (snd (createShortUrl2 e d req)) = db_urls d @ [u])))"
proof (intro conjI impI)
  let ?n = "normalizeUrl (trim (orElse (body_originalUrl (body req)) []))"
  assume a: "req_user req = Some uid \<and> truthy (body_originalUrl (body req))
      \<and> isValidUrl e ?n \<and> x \<in> set (db_urls d) \<and> originalUrl x = ?n \<and> user x = Some uid"
  then obtain y where y: "y \<in> set (db_urls d)" "originalUrl y = ?n \<and> user y = Some uid"
    and f: "find (\<lambda>u. originalUrl u = ?n \<and> user u = Some uid) (db_urls d) = Some y"
    using find_exists [of x "db_urls d" "\<lambda>u. originalUrl u = ?n \<and> user u = Some uid"]
    by blast
  from a f have two: "createShortUrl2 e d req
      = ([Responded (Json 200 True ''URL already shortened'' (UrlData y))], d)"
    by (intro createShortUrl2_existing) simp_all
  have one: "createShortUrl e d req
      = ([Responded (Json 200 True ''URL already shortened'' (UrlData y))], d)"
    if "\<not> truthy (body_customAlias (body req))
        \<or> validateCustomAlias (db_urls d) (trim (orElse (body_customAlias (body req)) []))
            = Inr True"
    using a f that by (intro createShortUrl_existing) simp_all
  from y two one
  show "\<exists>y\<in>set (db_urls d). originalUrl y = ?n \<and> user y = Some uid
           \<and> createShortUrl2 e d req
               = ([Responded (Json 200 True ''URL already shortened'' (UrlData y))], d)
           \<and> (\<not> truthy (body_customAlias (body req))
                \<or> validateCustomAlias (db_urls d)
                     (trim (orElse (body_customAlias (body req)) [])) = Inr True
               \<longrightarrow> createShortUrl e d req
                     = ([Responded (Json 200 True ''URL already shortened'' (UrlData y))], d))"
    by blast
next
  assume "req_user req = None"
  then show "\<forall>r\<in>set (responses (createShortUrl e d req)).
            (\<exists>m. r = Json 400 False m NoData)
            \<or> (\<exists>u q. r = Json 201 True ''Short URL created successfully'' (UrlWithQr u q)
                  \<and> db_urls (snd (createShortUrl e d req)) = db_urls d @ [u])"
    using createShortUrl_anonymous [of req _ e d] by (simp add: created_def)
next
  assume "req_user req = None"
  then show "\<forall>r\<in>set (responses (createShortUrl2 e d req)).
            (\<exists>m. r = Json 400 False m NoData)
            \<or> (\<exists>u q. r = Json 201 True ''Short URL created successfully'' (UrlWithQr u q)
                  \<and> db_urls (snd (createShortUrl2 e d req)) = db_urls d @ [u])"
    using createShortUrl2_anonymous [of req _ e d] by (simp add: created_def)
qed

lemma ex_dest:
  "normalizeUrl (trim (orElse (body_originalUrl (body (createRequest uid ''example.com/page'' a))) []))
     = ''https://example.com/page''"
  by code_simp

text \<open>The theorem at a user of \<open>db0\<close> who shortens a destination again, and at an anonymous
  request for the same destination, which creates a fourth link.\<close>

theorem create_returns_existing_link_witness:
  "createShortUrl2 env0 db0 (createRequest (Some 1) ''example.com/page'' None)
     = ([Responded (Json 200 True ''URL already shortened'' (UrlData (link 7 ''abc123'')))], db0)
   \<and> createShortUrl env0 db0 (createRequest (Some 1) ''example.com/page'' None)
     = ([Responded (Json 200 True ''URL already shortened'' (UrlData (link 7 ''abc123'')))], db0)
   \<and> responses (createShortUrl env0 db0 (createRequest None ''example.com/page'' None))
     = [Json 201 True ''Short URL created successfully''
         (UrlWithQr ((link 100 ''aaaaaa'')\<lparr>user := None, clicks := 0,
              createdAt := 1700000000000, updatedAt := 1700000000000\<rparr>)
            ''https://api.qrserver.com/v1/create-qr-code/?size=200x200&data=https://sho.rt/aaaaaa'')]
   \<and> length (db_urls (snd (createShortUrl env0 db0
         (createRequest None ''example.com/page'' None)))) = 4"
proof -
  let ?req = "createRequest (Some 1) ''example.com/page'' None"
  let ?anon = "createRequest None ''example.com/page'' None"
  have r: "req_user ?req = Some 1" "truthy (body_originalUrl (body ?req))"
      "\<not> truthy (body_customAlias (body ?req))"
    by (simp_all add: createRequest_def request0_def emptyBody_def truthy_def)
  have v: "isValidUrl env0 ''https://example.com/page''" by code_simp
  have x: "link 7 ''abc123'' \<in> set (db_urls db0)"
      "originalUrl (link 7 ''abc123'') = ''https://example.com/page''"
      "user (link 7 ''abc123'') = Some 1"
    by (simp_all add: db0_def link_def)
  have f: "find (\<lambda>u. originalUrl u = ''https://example.com/page'' \<and> user u = Some 1)
             (db_urls db0) = Some (link 7 ''abc123'')"
    by (simp add: db0_def link_def)
  from create_returns_existing_link [of ?req 1 env0 "link 7 ''abc123''" db0] r v x
  obtain y where y: "createShortUrl2 env0 db0 ?req
       = ([Responded (Json 200 True ''URL already shortened'' (UrlData y))], db0)"
      "createShortUrl env0 db0 ?req
       = ([Responded (Json 200 True ''URL already shortened'' (UrlData y))], db0)"
    unfolding ex_dest by blast
  have "createShortUrl2 env0 db0 ?req
       = ([Responded (Json 200 True ''URL already shortened'' (UrlData (link 7 ''abc123'')))], db0)"
    using r v f by (simp add: createShortUrl2_def Let_def ex_dest)
  with y have "y = link 7 ''abc123''" by simp
  with y have one: "createShortUrl2 env0 db0 ?req
       = ([Responded (Json 200 True ''URL already shortened'' (UrlData (link 7 ''abc123'')))], db0)"
     and two: "createShortUrl env0 db0 ?req
       = ([Responded (Json 200 True ''URL already shortened'' (UrlData (link 7 ''abc123'')))], db0)"
    by simp_all
  have three: "responses (createShortUrl env0 db0 ?anon)
     = [Json 201 True ''Short URL created successfully''
         (UrlWithQr ((link 100 ''aaaaaa'')\<lparr>user := None, clicks := 0,
              createdAt := 1700000000000, updatedAt := 1700000000000\<rparr>)
            ''https://api.qrserver.com/v1/create-qr-code/?size=200x200&data=https://sho.rt/aaaaaa'')]"
    by code_simp
  have four: "length (db_urls (snd (createShortUrl env0 db0 ?anon))) = 4"
    by code_simp
  from one two three four show ?thesis by simp
qed

text \<open>
  Against C6 as stated: \<open>url.controller.js\<close> refuses an authenticated request for a
  destination the user has shortened already, because its custom alias is reserved.
\<close>

theorem create_alias_first_counterexample:
  "req_user (createRequest (Some 1) ''example.com/page'' (Some ''admin'')) = Some 1
   \<and> normalizeUrl (trim ''example.com/page'') = ''https://example.com/page''
   \<and> link 7 ''abc123'' \<in> set (db_urls db0)
   \<and> originalUrl (link 7 ''abc123'') = ''https://example.com/page''
   \<and> user (link 7 ''abc123'') = Some 1
   \<and> createShortUrl env0 db0 (createRequest (Some 1) ''example.com/page'' (Some ''admin''))
     = ([Responded (Json 400 False ''This alias is reserved and cannot be used'' NoData)], db0)"
  by code_simp

section \<open>The analytics report\<close>

lemma groupCount_set:
  "g \<in> set (groupCount key xs) \<longleftrightarrow>
     fst g \<in> key ` set xs \<and> snd g = length (filter (\<lambda>x. key x = fst g) xs)"
  by (cases g) (auto simp: groupCount_def)

lemma groupCount_keys: "map fst (groupCount key xs) = remdups (map key xs)"
  by (simp add: groupCount_def comp_def)

lemma groupCount_positive:
  assumes "g \<in> set (groupCount key xs)"
  shows "0 < snd g"
proof -
  from assms obtain x where "x \<in> set xs" "key x = fst g"
    and s: "snd g = length (filter (\<lambda>x. key x = fst g) xs)"
    by (auto simp: groupCount_set)
  then have "x \<in> set (filter (\<lambda>x. key x = fst g) xs)" by simp
  then have "filter (\<lambda>x. key x = fst g) xs \<noteq> []" by (metis empty_iff empty_set)
  with s show ?thesis by simp
qed

lemma sortByClicksDesc_set: "set (sortByClicksDesc gs) = set gs"
  by (simp add: sortByClicksDesc_def)

lemma sortByClicksDesc_sorted:
  "sorted_wrt (\<lambda>g h. snd h \<le> snd g) (sortByClicksDesc gs)"
proof -
  have "sorted (map (\<lambda>g. - int (snd g)) (sortByClicksDesc gs))"
    by (simp add: sortByClicksDesc_def)
  then show ?thesis by (simp add: sorted_map)
qed

lemma sortByClicksDesc_distinct_keys:
  assumes "distinct (map fst gs)"
  shows "distinct (map fst (sortByClicksDesc gs))"
proof -
  from assms have "distinct gs" "inj_on fst (set gs)" by (simp_all add: distinct_map)
  then have "distinct (sortByClicksDesc gs)" "inj_on fst (set (sortByClicksDesc gs))"
    by (simp_all add: sortByClicksDesc_def)
  then show ?thesis by (simp add: distinct_map)
qed

lemma topTen_length: "length (topTen key m) \<le> 10"
  by (simp add: topTen_def)

lemma topTen_sorted: "sorted_wrt (\<lambda>g h. snd h \<le> snd g) (topTen key m)"
  unfolding topTen_def by (intro sorted_wrt_take sortByClicksDesc_sorted)

lemma topTen_subset: "g \<in> set (topTen key m) \<Longrightarrow> g \<in> set (groupCount key m)"
  unfolding topTen_def using sortByClicksDesc_set [of "groupCount key m"]
  by (auto dest: in_set_takeD)

lemma topTen_distinct: "distinct (map fst (topTen key m))"
proof -
  have "distinct (map fst (sortByClicksDesc (groupCount key m)))"
    by (intro sortByClicksDesc_distinct_keys) (simp add: groupCount_keys)
  then have "distinct (take 10 (map fst (sortByClicksDesc (groupCount key m))))"
    by (rule distinct_take)
  then show ?thesis by (simp add: topTen_def take_map)
qed

lemma topTen_counts:
  assumes "g \<in> set (topTen key m)"
  shows "snd g = length (filter (\<lambda>c. key c = fst g) m) \<and> 0 < snd g"
  using topTen_subset [OF assms] groupCount_positive [of g key m]
  by (simp add: groupCount_set)

lemma topTen_omitted:
  assumes "c \<in> set m" "key c \<notin> fst ` set (topTen key m)" "g \<in> set (topTen key m)"
  shows "length (topTen key m) = 10 \<and> length (filter (\<lambda>x. key x = key c) m) \<le> snd g"
proof -
  let ?all = "sortByClicksDesc (groupCount key m)"
  let ?h = "(key c, length (filter (\<lambda>x. key x = key c) m))"
  from assms(1) have "?h \<in> set (groupCount key m)" by (simp add: groupCount_set)
  then have "?h \<in> set ?all" by (simp add: sortByClicksDesc_set)
  then have "?h \<in> set (take 10 ?all) \<or> ?h \<in> set (drop 10 ?all)"
    by (metis Un_iff append_take_drop_id set_append)
  moreover have "?h \<notin> set (take 10 ?all)"
    using assms(2) by (force simp: topTen_def)
  ultimately have dropped: "?h \<in> set (drop 10 ?all)" by simp
  then have "drop 10 ?all \<noteq> []" by auto
  then have len: "length (topTen key m) = 10" by (simp add: topTen_def)
  have "sorted_wrt (\<lambda>g h. snd h \<le> snd g) (take 10 ?all @ drop 10 ?all)"
    by (simp add: sortByClicksDesc_sorted)
  then have "\<forall>a\<in>set (take 10 ?all). \<forall>b\<in>set (drop 10 ?all). snd b \<le> snd a"
    unfolding sorted_wrt_append by blast
  with dropped assms(3) have "snd ?h \<le> snd g" unfolding topTen_def by blast
  with len show ?thesis by simp
qed

lemma summaryOf_total: "fst (summaryOf cs) = length cs"
  by (simp add: summaryOf_def)

text \<open>The window of the two controllers.\<close>

lemma getDateRange_named:
  assumes "\<not> (truthy (query_startDate q) \<and> truthy (query_endDate q))"
  shows "getDateRange e q =
     (map_option (\<lambda>n. now e - n * 24 * 60 * 60 * 1000)
        (daysToSubtract2 (case query_period q of None \<Rightarrow> ''7d'' | Some p \<Rightarrow> p)),
      Some (now e))"
  by (simp only: getDateRange_def assms if_False)

lemma dateRange_named:
  assumes "\<not> (truthy (query_startDate q) \<and> truthy (query_endDate q))"
  shows "dateRange e q =
     (Some (now e - daysToSubtract (case query_period q of None \<Rightarrow> ''7d'' | Some p \<Rightarrow> p)
              * 24 * 60 * 60 * 1000),
      Some (now e))"
  by (simp only: dateRange_def assms if_False)

lemma dateRange_given:
  assumes "truthy (query_startDate q) \<and> truthy (query_endDate q)"
  shows "dateRange e q = getDateRange e q"
  by (simp only: dateRange_def getDateRange_def assms simp_thms if_True)

lemma daysToSubtract2_Some: "daysToSubtract2 p = Some n \<Longrightarrow> daysToSubtract p = n"
  unfolding daysToSubtract2_def daysToSubtract_def by (simp split: if_splits)

lemma getDateRange_dateRange:
  assumes "getDateRange e q = (Some s, Some t)"
  shows "dateRange e q = (Some s, Some t)"
proof (cases "truthy (query_startDate q) \<and> truthy (query_endDate q)")
  case True
  with assms show ?thesis by (simp only: dateRange_given)
next
  case False
  let ?p = "case query_period q of None \<Rightarrow> ''7d'' | Some p \<Rightarrow> p"
  from getDateRange_named [OF False, of e] assms
  have "(map_option (\<lambda>n. now e - n * 24 * 60 * 60 * 1000) (daysToSubtract2 ?p), Some (now e))
      = (Some s, Some t)"
    by (rule trans [OF sym])
  then have m: "map_option (\<lambda>n. now e - n * 24 * 60 * 60 * 1000) (daysToSubtract2 ?p) = Some s"
    and t: "Some (now e) = Some t"
    by (simp_all only: prod.inject)
  from m obtain n where n: "daysToSubtract2 ?p = Some n"
      and s: "s = now e - n * 24 * 60 * 60 * 1000"
    by (cases "daysToSubtract2 ?p") simp_all
  from n have "daysToSubtract ?p = n" by (rule daysToSubtract2_Some)
  with s t show ?thesis by (simp only: dateRange_named [OF False])
qed

lemma dateRange_getDateRange:
  assumes "dateRange e q = (Some s, Some t)"
  shows "getDateRange e q = (Some s, Some t) \<or> getDateRange e q = (None, Some t)"
proof (cases "truthy (query_startDate q) \<and> truthy (query_endDate q)")
  case True
  with assms show ?thesis by (simp only: dateRange_given [symmetric]) simp
next
  case False
  let ?p = "case query_period q of None \<Rightarrow> ''7d'' | Some p \<Rightarrow> p"
  from dateRange_named [OF False, of e] assms
  have "(Some (now e - daysToSubtract ?p * 24 * 60 * 60 * 1000), Some (now e)) = (Some s, Some t)"
    by (rule trans [OF sym])
  then have s: "Some (now e - daysToSubtract ?p * 24 * 60 * 60 * 1000) = Some s"
    and t: "Some (now e) = Some t"
    by (simp_all only: prod.inject)
  show ?thesis
  proof (cases "daysToSubtract2 ?p")
    case None
    with t show ?thesis by (simp add: getDateRange_named [OF False])
  next
    case (Some n)
    then have "daysToSubtract ?p = n" by (rule daysToSubtract2_Some)
    with Some s t show ?thesis by (simp add: getDateRange_named [OF False])
  qed
qed

text \<open>The window of the refactored controller is not valid exactly when a date of the query
  is not, or when the period is a name that an object inherits.\<close>

lemma daysToSubtract2_None: "daysToSubtract2 p = None \<longleftrightarrow> p \<in> set objectPrototypeKeys"
  unfolding daysToSubtract2_def objectPrototypeKeys_def by simp

lemma reportOf_getUrlAnalytics:
  assumes "req_user req = Some uid" "findUrlForUser (db_urls d) (params_id req) uid = Some u"
    and "dateRange e (query req) = (Some s, Some t)"
  shows "reportOf (getUrlAnalytics e d req) =
     Some (reportData e u req s t (matchStage (url_id u) s t (db_clicks d)))"
  using assms
  by (simp add: getUrlAnalytics_def Let_def reportOf_def responses_def reportData_def)

lemma reportOf_getUrlAnalytics2:
  assumes "req_user req = Some uid" "findUrlForUser (db_urls d) (params_id req) uid = Some u"
    and "getDateRange e (query req) = (Some s, Some t)"
  shows "reportOf (getUrlAnalytics2 e d req) =
     Some (reportData2 e u req s t (matchStage (url_id u) s t (db_clicks d)))"
  using assms
  by (simp add: getUrlAnalytics2_def Let_def reportOf_def responses_def reportData2_def)

lemma getUrlAnalytics2_invalid:
  assumes "req_user req = Some uid" "findUrlForUser (db_urls d) (params_id req) uid = Some u"
    and "getDateRange e (query req) = (None, t)"
  shows "getUrlAnalytics2 e d req = ([Thrown (CastError ''timestamp'')], d)"
  using assms by (simp add: getUrlAnalytics2_def)



lemma matchStage_filter:
  "matchStage i s t cs = filter (\<lambda>c. click_url c = i \<and> s \<le> timestamp c \<and> timestamp c \<le> t) cs"
  by (simp add: matchStage_def)

lemma topTen_omitted_all:
  assumes "c \<in> set m"
  shows "key c \<in> fst ` set (topTen key m)
           \<or> (length (topTen key m) = 10
               \<and> (\<forall>g\<in>set (topTen key m).
                     length (filter (\<lambda>x. key x = key c) m) \<le> snd g))"
proof (cases "key c \<in> fst ` set (topTen key m)")
  case True
  then show ?thesis by simp
next
  case False
  have nonempty: "topTen key m \<noteq> []"
  proof
    assume e: "topTen key m = []"
    from assms have "groupCount key m \<noteq> []" by (auto simp: groupCount_def)
    then have "sortByClicksDesc (groupCount key m) \<noteq> []"
      using sortByClicksDesc_set [of "groupCount key m"] by (metis set_empty)
    with e show False by (simp add: topTen_def)
  qed
  then obtain g0 where "g0 \<in> set (topTen key m)" by (cases "topTen key m") auto
  with assms False have "length (topTen key m) = 10"
    using topTen_omitted [of c m key g0] by simp
  moreover have "\<forall>g\<in>set (topTen key m). length (filter (\<lambda>x. key x = key c) m) \<le> snd g"
    using assms False topTen_omitted [of c m key] by simp
  ultimately show ?thesis by simp
qed

text \<open>
  C7. For the owner's report on a link over the window from \<open>start\<close> to \<open>end'\<close>, with \<open>m\<close>
  the clicks of the link whose timestamp lies in the window (bounds included):
  \<open>url.controller.js\<close> reports the window and \<open>length m\<close> as the total; its country chart has
  at most ten rows, in descending order of their counts, with distinct countries; the count
  of a row is the number of clicks of \<open>m\<close> of its country, and is positive; a country of \<open>m\<close>
  without a row is outnumbered by every row of a full chart (the chart is the top ten).
  The refactored controller sends a report when its own window is valid, and then over the
  same window (by \<open>getDateRange_dateRange\<close> every report of it is one of these): the total
  is \<open>length m\<close> and the country chart is that chart, row by row, with its labels
  rendered. Its window is not valid when the period names a property that an object
  inherits; then its start is an Invalid Date, the query of the recent clicks is rejected
  and no report is sent.
\<close>

theorem analytics_country_breakdown:
  assumes "req_user req = Some uid"
    and "findUrlForUser (db_urls d) (params_id req) uid = Some u"
    and "dateRange e (query req) = (Some start, Some end')"
    and "m = filter (\<lambda>c. click_url c = url_id u \<and> start \<le> timestamp c \<and> timestamp c \<le> end')
               (db_clicks d)"
  shows "\<exists>a. reportOf (getUrlAnalytics e d req) = Some a
     \<and> period_start a = start \<and> period_end a = end'
     \<and> summary_totalClicks a = length m
     \<and> length (clicksByCountry (an_charts a)) \<le> 10
     \<and> sorted_wrt (\<lambda>g h. snd h \<le> snd g) (clicksByCountry (an_charts a))
     \<and> distinct (map fst (clicksByCountry (an_charts a)))
     \<and> (\<forall>g\<in>set (clicksByCountry (an_charts a)).
           snd g = length (filter (\<lambda>c. country c = fst g) m) \<and> 0 < snd g)
     \<and> (\<forall>c\<in>set m. country c \<in> fst ` set (clicksByCountry (an_charts a))
           \<or> (length (clicksByCountry (an_charts a)) = 10
               \<and> (\<forall>g\<in>set (clicksByCountry (an_charts a)).
                     length (filter (\<lambda>x. country x = country c) m) \<le> snd g)))
     \<and> (if getDateRange e (query req) = (Some start, Some end')
        then \<exists>a2. reportOf (getUrlAnalytics2 e d req) = Some a2
               \<and> period_start a2 = start \<and> period_end a2 = end'
               \<and> summary_totalClicks a2 = length m
               \<and> clicksByCountry (an_charts a2)
                   = map (\<lambda>g. (Some (orElse (fst g) ''Unknown''), snd g))
                       (clicksByCountry (an_charts a))
        else getDateRange e (query req) = (None, Some end')
               \<and> getUrlAnalytics2 e d req = ([Thrown (CastError ''timestamp'')], d))"
proof -
  have m: "matchStage (url_id u) start end' (db_clicks d) = m"
    using assms(4) by (simp add: matchStage_filter)
  let ?a = "reportData e u req start end' m" and ?a2 = "reportData2 e u req start end' m"
  have a: "reportOf (getUrlAnalytics e d req) = Some ?a"
    using reportOf_getUrlAnalytics [OF assms(1,2,3)] by (simp only: m)
  have c: "clicksByCountry (an_charts ?a) = topTen country m"
    by (simp add: reportData_def)
  have p: "period_start ?a = start" "period_end ?a = end'"
    by (simp_all add: reportData_def)
  have t: "summary_totalClicks ?a = length m"
    by (simp add: reportData_def summaryOf_total)
  have len: "length (clicksByCountry (an_charts ?a)) \<le> 10"
    unfolding c by (rule topTen_length)
  have srt: "sorted_wrt (\<lambda>g h. snd h \<le> snd g) (clicksByCountry (an_charts ?a))"
    unfolding c by (rule topTen_sorted)
  have dst: "distinct (map fst (clicksByCountry (an_charts ?a)))"
    unfolding c by (rule topTen_distinct)
  have cnt: "\<forall>g\<in>set (clicksByCountry (an_charts ?a)).
           snd g = length (filter (\<lambda>c. country c = fst g) m) \<and> 0 < snd g"
    unfolding c using topTen_counts [of _ country m] by blast
  have omt: "\<forall>c\<in>set m. country c \<in> fst ` set (clicksByCountry (an_charts ?a))
           \<or> (length (clicksByCountry (an_charts ?a)) = 10
               \<and> (\<forall>g\<in>set (clicksByCountry (an_charts ?a)).
                     length (filter (\<lambda>x. country x = country c) m) \<le> snd g))"
    unfolding c using topTen_omitted_all [of _ m country] by blast
  have second: "if getDateRange e (query req) = (Some start, Some end')
        then \<exists>a2. reportOf (getUrlAnalytics2 e d req) = Some a2
               \<and> period_start a2 = start \<and> period_end a2 = end'
               \<and> summary_totalClicks a2 = length m
               \<and> clicksByCountry (an_charts a2)
                   = map (\<lambda>g. (Some (orElse (fst g) ''Unknown''), snd g))
                       (clicksByCountry (an_charts ?a))
        else getDateRange e (query req) = (None, Some end')
               \<and> getUrlAnalytics2 e d req = ([Thrown (CastError ''timestamp'')], d)"
  proof (cases "getDateRange e (query req) = (Some start, Some end')")
    case True
    have a2: "reportOf (getUrlAnalytics2 e d req) = Some ?a2"
      using reportOf_getUrlAnalytics2 [OF assms(1,2) True] by (simp only: m)
    have c2: "clicksByCountry (an_charts ?a2)
        = map (\<lambda>g. (Some (orElse (fst g) ''Unknown''), snd g)) (clicksByCountry (an_charts ?a))"
      by (simp add: reportData_def reportData2_def labelled_def)
    have p2: "period_start ?a2 = start" "period_end ?a2 = end'"
      by (simp_all add: reportData2_def)
    have t2: "summary_totalClicks ?a2 = length m"
      by (simp add: reportData2_def summaryOf_total)
    from a2 c2 p2 t2
    have "\<exists>a2. reportOf (getUrlAnalytics2 e d req) = Some a2
               \<and> period_start a2 = start \<and> period_end a2 = end'
               \<and> summary_totalClicks a2 = length m
               \<and> clicksByCountry (an_charts a2)
                   = map (\<lambda>g. (Some (orElse (fst g) ''Unknown''), snd g))
                       (clicksByCountry (an_charts ?a))"
      by blast
    with True show ?thesis by (simp only: if_True simp_thms)
  next
    case False
    with dateRange_getDateRange [OF assms(3)]
    have g: "getDateRange e (query req) = (None, Some end')" by blast
    from assms(1,2) g
    have "getUrlAnalytics2 e d req = ([Thrown (CastError ''timestamp'')], d)"
      by (rule getUrlAnalytics2_invalid)
    with g False show ?thesis by (simp only: if_False simp_thms)
  qed
  from a p t len srt dst cnt omt second show ?thesis by blast
qed

lemma ex_report_owner:
  "req_user analyticsRequest = Some 1 \<and> params_id analyticsRequest = 7
   \<and> dateRange env0 (query analyticsRequest) = (Some 1699900000000, Some 1700000000000)
   \<and> getDateRange env0 (query analyticsRequest) = (Some 1699900000000, Some 1700000000000)"
  by code_simp

lemma ex_owned_eleven:
  "findUrlForUser (db_urls (db0\<lparr>db_clicks := elevenClicks\<rparr>)) 7 1 = Some (link 7 ''abc123'')"
  using ex_owned by simp

text \<open>The theorem at eleven clicks from \<open>US\<close> (7), \<open>DE\<close> (3) and \<open>Unknown\<close> (1).\<close>

theorem analytics_country_breakdown_witness:
  "totalOf (getUrlAnalytics env0 (db0\<lparr>db_clicks := elevenClicks\<rparr>) analyticsRequest) = Some 11
   \<and> totalOf (getUrlAnalytics2 env0 (db0\<lparr>db_clicks := elevenClicks\<rparr>) analyticsRequest)
       = Some 11
   \<and> countryChartOf (getUrlAnalytics env0 (db0\<lparr>db_clicks := elevenClicks\<rparr>) analyticsRequest)
       = Some [(Some ''US'', 7), (Some ''DE'', 3), (Some ''Unknown'', 1)]
   \<and> countryChartOf (getUrlAnalytics2 env0 (db0\<lparr>db_clicks := elevenClicks\<rparr>) analyticsRequest)
       = Some [(Some ''US'', 7), (Some ''DE'', 3), (Some ''Unknown'', 1)]"
proof -
  let ?d = "db0\<lparr>db_clicks := elevenClicks\<rparr>"
  let ?m = "filter (\<lambda>c. click_url c = url_id (link 7 ''abc123'')
                \<and> 1699900000000 \<le> timestamp c \<and> timestamp c \<le> 1700000000000)
              (db_clicks ?d)"
  have n: "length ?m = 11" by code_simp
  have ch: "countryChartOf (getUrlAnalytics env0 ?d analyticsRequest)
     = Some [(Some ''US'', 7), (Some ''DE'', 3), (Some ''Unknown'', 1)]"
    by code_simp
  have w: "dateRange env0 (query analyticsRequest) = (Some 1699900000000, Some 1700000000000)"
    and w2: "getDateRange env0 (query analyticsRequest)
        = (Some 1699900000000, Some 1700000000000)"
    and o: "req_user analyticsRequest = Some 1"
    using ex_report_owner by simp_all
  have f: "findUrlForUser (db_urls ?d) (params_id analyticsRequest) 1 = Some (link 7 ''abc123'')"
    using ex_report_owner ex_owned_eleven by simp
  from analytics_country_breakdown [OF o f w, of ?m]
  obtain a where r: "reportOf (getUrlAnalytics env0 ?d analyticsRequest) = Some a"
      "summary_totalClicks a = length ?m"
    and s: "if getDateRange env0 (query analyticsRequest)
               = (Some 1699900000000, Some 1700000000000)
        then \<exists>a2. reportOf (getUrlAnalytics2 env0 ?d analyticsRequest) = Some a2
               \<and> period_start a2 = 1699900000000 \<and> period_end a2 = 1700000000000
               \<and> summary_totalClicks a2 = length ?m
               \<and> clicksByCountry (an_charts a2)
                   = map (\<lambda>g. (Some (orElse (fst g) ''Unknown''), snd g))
                       (clicksByCountry (an_charts a))
        else getDateRange env0 (query analyticsRequest) = (None, Some 1700000000000)
               \<and> getUrlAnalytics2 env0 ?d analyticsRequest
                   = ([Thrown (CastError ''timestamp'')], ?d)"
    by blast
  from s obtain a2 where r2: "reportOf (getUrlAnalytics2 env0 ?d analyticsRequest) = Some a2"
      "summary_totalClicks a2 = length ?m"
      "clicksByCountry (an_charts a2)
         = map (\<lambda>g. (Some (orElse (fst g) ''Unknown''), snd g)) (clicksByCountry (an_charts a))"
    unfolding if_P [OF w2] by blast
  from ch r(1) have "clicksByCountry (an_charts a)
      = [(Some ''US'', 7), (Some ''DE'', 3), (Some ''Unknown'', 1)]"
    by (simp add: countryChartOf_def)
  with r2(3) have "clicksByCountry (an_charts a2)
      = [(Some ''US'', 7), (Some ''DE'', 3), (Some ''Unknown'', 1)]"
    by (simp add: orElse_def)
  with r r2 n ch show ?thesis by (simp add: countryChartOf_def totalOf_def)
qed

text \<open>A period that names an inherited property: \<open>url.controller.js\<close> reports the last seven
  days, the refactored controller is rejected.\<close>

lemma getUrlAnalytics2_inherited_period:
  "getUrlAnalytics2 env0 db0 (periodRequest ''constructor'')
     = ([Thrown (CastError ''timestamp'')], db0)
   \<and> totalOf (getUrlAnalytics env0 db0 (periodRequest ''constructor'')) = Some 2
   \<and> totalOf (getUrlAnalytics2 env0 db0 (periodRequest ''7d'')) = Some 2"
  by code_simp

section \<open>The placeholders of the charts\<close>








































end
